theory Spec2Isabelle
  imports Main "HOL-Library.Monad_Syntax"
begin

section \<open>Data model (types.ts, App.tsx)\<close>

text \<open>
  The enumeration \<^verbatim>\<open>SiteStatus\<close> and the interfaces \<^verbatim>\<open>ChatMessage\<close>,
  \<^verbatim>\<open>SearchResult\<close>, \<^verbatim>\<open>BrowserTab\<close> of types.ts and \<^verbatim>\<open>CachedSiteData\<close> of
  App.tsx. A field typed \<^verbatim>\<open>string | null\<close> is a \<open>string option\<close>. Numbers that the
  code only counts with (\<^verbatim>\<open>historyIndex\<close>, timestamps) are integers. The fields of
  \<^verbatim>\<open>CachedSiteData\<close> carry the prefix \<open>site_\<close>, those of \<^verbatim>\<open>SearchResult\<close> the prefix
  \<open>sr_\<close>, because one theory cannot hold two records with a field of the same name;
  \<^verbatim>\<open>id\<close> is \<open>tab_id\<close> and \<^verbatim>\<open>text\<close> is \<open>msg_text\<close>.
\<close>

datatype SiteStatus = NORMAL | SLOWED | BLOCKED | CONTENT_REMOVED | UNDER_APPEAL

datatype Role = User | Model

record ChatMessage =
  role :: Role
  msg_text :: string
  timestamp :: int


datatype Verdict = UPHOLD | OVERTURN

record BrowserTab =
  tab_id :: string
  url :: string
  title :: string
  isLoading :: bool
  history :: "string list"
  historyIndex :: int
  content :: "string option"
  status :: SiteStatus
  chatHistory :: "ChatMessage list"
  error :: "string option"

record CachedSiteData =
  site_url :: string
  site_title :: string
  site_content :: "string option"
  site_status :: SiteStatus
  site_chatHistory :: "ChatMessage list"
  lastVisited :: int

text \<open>
  \<^verbatim>\<open>Partial<BrowserTab>\<close> and \<^verbatim>\<open>Partial<CachedSiteData>\<close>: an object literal that names
  some of the fields. \<open>None\<close> is a key that the literal does not have; for a nullable
  field \<open>Some None\<close> is the key given as \<^verbatim>\<open>null\<close>. A literal is written as an update
  of the literal without keys, \<open>no_tab_fields\<close> or \<open>no_site_fields\<close>.
\<close>

record BrowserTab_partial =
  p_tab_id :: "string option"
  p_url :: "string option"
  p_title :: "string option"
  p_isLoading :: "bool option"
  p_history :: "string list option"
  p_historyIndex :: "int option"
  p_content :: "string option option"
  p_status :: "SiteStatus option"
  p_chatHistory :: "ChatMessage list option"
  p_error :: "string option option"

record CachedSiteData_partial =
  p_site_url :: "string option"
  p_site_title :: "string option"
  p_site_content :: "string option option"
  p_site_status :: "SiteStatus option"
  p_site_chatHistory :: "ChatMessage list option"
  p_lastVisited :: "int option"

definition no_tab_fields :: BrowserTab_partial where
  "no_tab_fields = \<lparr>p_tab_id = None, p_url = None, p_title = None, p_isLoading = None,
     p_history = None, p_historyIndex = None, p_content = None, p_status = None,
     p_chatHistory = None, p_error = None\<rparr>"

definition no_site_fields :: CachedSiteData_partial where
  "no_site_fields = \<lparr>p_site_url = None, p_site_title = None, p_site_content = None,
     p_site_status = None, p_site_chatHistory = None, p_lastVisited = None\<rparr>"

text \<open>One key of an object spread \<^verbatim>\<open>{...old, ...updates}\<close>: the update's value when
  the key is there, the old value otherwise.\<close>

definition spread :: "'a \<Rightarrow> 'a option \<Rightarrow> 'a" where
  "spread old upd = (case upd of None \<Rightarrow> old | Some v \<Rightarrow> v)"

text \<open>\<^verbatim>\<open>{ ...tab, ...updates }\<close> of \<^verbatim>\<open>updateTab\<close>.\<close>

definition merge_tab :: "BrowserTab \<Rightarrow> BrowserTab_partial \<Rightarrow> BrowserTab" where
  "merge_tab tab updates =
     \<lparr>tab_id = spread (tab_id tab) (p_tab_id updates),
      url = spread (url tab) (p_url updates),
      title = spread (title tab) (p_title updates),
      isLoading = spread (isLoading tab) (p_isLoading updates),
      history = spread (history tab) (p_history updates),
      historyIndex = spread (historyIndex tab) (p_historyIndex updates),
      content = spread (content tab) (p_content updates),
      status = spread (status tab) (p_status updates),
      chatHistory = spread (chatHistory tab) (p_chatHistory updates),
      error = spread (error tab) (p_error updates)\<rparr>"

text \<open>\<^verbatim>\<open>{ ...existing, ...data }\<close> of \<^verbatim>\<open>updateCache\<close>, before \<^verbatim>\<open>lastVisited\<close> is set.\<close>

definition merge_site :: "CachedSiteData \<Rightarrow> CachedSiteData_partial \<Rightarrow> CachedSiteData" where
  "merge_site existing data =
     \<lparr>site_url = spread (site_url existing) (p_site_url data),
      site_title = spread (site_title existing) (p_site_title data),
      site_content = spread (site_content existing) (p_site_content data),
      site_status = spread (site_status existing) (p_site_status data),
      site_chatHistory = spread (site_chatHistory existing) (p_site_chatHistory data),
      lastVisited = spread (lastVisited existing) (p_lastVisited data)\<rparr>"

section \<open>Component state and the way React runs the handlers\<close>

text \<open>
  \<^verbatim>\<open>App\<close> keeps its state in \<^verbatim>\<open>useState\<close> cells: \<^verbatim>\<open>siteCache\<close>, \<^verbatim>\<open>tabs\<close>,
  \<^verbatim>\<open>activeTabId\<close> and the flags of the chat and court windows. \<open>genCalls\<close> is not a
  cell of the program: it lists the calls made to \<^verbatim>\<open>generatePageContent\<close> (url, title,
  isCensored), so that a theorem can say that a run reaches the collaborator or does not.

  Every handler is a closure of one render. Inside it \<^verbatim>\<open>siteCache\<close>, \<^verbatim>\<open>tabs\<close> and
  \<^verbatim>\<open>activeTabId\<close> are constants holding the state of that render; a setter does not
  change them. \<^verbatim>\<open>setTabs(prev => ...)\<close> and \<^verbatim>\<open>setSiteCache(prev => ...)\<close> queue a
  function that React applies to the latest state, in the order of the calls. Each
  handler below therefore takes two states: \<open>r\<close>, the state of the render whose closure
  runs (everything the source reads from \<^verbatim>\<open>siteCache\<close>, \<^verbatim>\<open>tabs\<close>, \<^verbatim>\<open>activeTabId\<close>
  is read from \<open>r\<close>), and \<open>s\<close>, the state the queued updates are applied to. When the
  user triggers a handler the two are the same state; inside one handler the updates
  already queued have changed \<open>s\<close> and not \<open>r\<close>.

  A callback given to \<^verbatim>\<open>setTimeout\<close> and the code after an \<^verbatim>\<open>await\<close> run later. The
  model runs them as the last steps of the handler, in the order in which they fire
  when no other event comes in between; the length of a delay is not modelled.

  \<open>None\<close> as the result of a handler is a run that leaves the typed state: a state
  updater that throws (\<^verbatim>\<open>new URL(url)\<close> on a string that is no URL), which takes the
  whole component tree down at the next render, or a tab whose \<^verbatim>\<open>url\<close> would be
  \<^verbatim>\<open>undefined\<close>.
\<close>

type_synonym cache = "string \<rightharpoonup> CachedSiteData"

record app_state =
  siteCache :: cache
  tabs :: "BrowserTab list"
  activeTabId :: string
  isChatOpen :: bool
  isChatTyping :: bool
  isCourtOpen :: bool
  genCalls :: "(string \<times> string \<times> bool) list"

definition about_home :: string where
  "about_home = ''about:home''"

text \<open>The title of the start page. The source's literal is Russian (``new tab''); theory
  text is ASCII, so the constant holds its transliteration.\<close>

definition home_title :: string where
  "home_title = ''Novaya vkladka''"

text \<open>The tab that \<^verbatim>\<open>useState\<close> starts with and that \<^verbatim>\<open>handleNewTab\<close> creates;
  \<open>i\<close> is the result of \<^verbatim>\<open>generateId()\<close>.\<close>

definition new_tab :: "string \<Rightarrow> BrowserTab" where
  "new_tab i = \<lparr>tab_id = i, url = about_home, title = home_title, isLoading = False,
     history = [about_home], historyIndex = 0, content = None, status = NORMAL,
     chatHistory = [], error = None\<rparr>"

text \<open>The first state: \<open>c\<close> is what \<^verbatim>\<open>localStorage\<close> held under \<^verbatim>\<open>rkn_site_db\<close> (the
  empty map when there was nothing or it could not be read).\<close>

definition initial_state :: "string \<Rightarrow> cache \<Rightarrow> app_state" where
  "initial_state i c = \<lparr>siteCache = c, tabs = [new_tab i], activeTabId = i,
     isChatOpen = False, isChatTyping = False, isCourtOpen = False, genCalls = []\<rparr>"

subsection \<open>updateCache\<close>

text \<open>
  The function that \<^verbatim>\<open>updateCache\<close> hands to \<^verbatim>\<open>setSiteCache\<close>. \<open>hn u\<close> is
  \<^verbatim>\<open>new URL(u).hostname\<close>, \<open>None\<close> when the constructor throws; it is evaluated only
  when \<^verbatim>\<open>prev[url]\<close> is missing, as the right operand of \<^verbatim>\<open>||\<close>. \<open>now\<close> is the reading of
  \<^verbatim>\<open>Date.now()\<close>.
\<close>

definition updateCache_updater ::
  "(string \<Rightarrow> string option) \<Rightarrow> int \<Rightarrow> string \<Rightarrow> CachedSiteData_partial \<Rightarrow> cache \<Rightarrow> cache option" where
  "updateCache_updater hn now u data prev =
     (case prev u of
        Some existing \<Rightarrow> Some (prev(u \<mapsto> (merge_site existing data)\<lparr>lastVisited := now\<rparr>))
      | None \<Rightarrow>
          (case hn u of
             None \<Rightarrow> None
           | Some host \<Rightarrow>
               Some (prev(u \<mapsto> (merge_site
                 \<lparr>site_url = u, site_title = host, site_content = None, site_status = NORMAL,
                  site_chatHistory = [], lastVisited = now\<rparr> data)\<lparr>lastVisited := now\<rparr>))))"

definition updateCache ::
  "(string \<Rightarrow> string option) \<Rightarrow> int \<Rightarrow> string \<Rightarrow> CachedSiteData_partial \<Rightarrow> app_state \<Rightarrow> app_state option" where
  "updateCache hn now u data s =
     (case updateCache_updater hn now u data (siteCache s) of
        None \<Rightarrow> None
      | Some c \<Rightarrow> Some (s\<lparr>siteCache := c\<rparr>))"

text \<open>
  The value of the call \<^verbatim>\<open>updateCache(url, data)\<close>, next to its effect. The body of the
  arrow function is a block with no \<^verbatim>\<open>return\<close>, so the value is \<^verbatim>\<open>undefined\<close>: \<open>None\<close>
  in the first component.
\<close>

definition updateCache_call ::
  "(string \<Rightarrow> string option) \<Rightarrow> int \<Rightarrow> string \<Rightarrow> CachedSiteData_partial \<Rightarrow> app_state
     \<Rightarrow> (CachedSiteData option \<times> app_state) option" where
  "updateCache_call hn now u data s = map_option (Pair None) (updateCache hn now u data s)"

subsection \<open>Tabs\<close>

text \<open>\<^verbatim>\<open>tabs.find(t => t.id === id)\<close>: the first tab with that id, \<open>None\<close> for
  \<^verbatim>\<open>undefined\<close>.\<close>

definition find_tab :: "string \<Rightarrow> BrowserTab list \<Rightarrow> BrowserTab option" where
  "find_tab i ts = List.find (\<lambda>t. tab_id t = i) ts"

definition getActiveTab :: "app_state \<Rightarrow> BrowserTab option" where
  "getActiveTab r = find_tab (activeTabId r) (tabs r)"

definition updateTab :: "string \<Rightarrow> BrowserTab_partial \<Rightarrow> app_state \<Rightarrow> app_state" where
  "updateTab i updates s =
     s\<lparr>tabs := map (\<lambda>tab. if tab_id tab = i then merge_tab tab updates else tab) (tabs s)\<rparr>"

definition updateActiveTab :: "app_state \<Rightarrow> BrowserTab_partial \<Rightarrow> app_state \<Rightarrow> app_state" where
  "updateActiveTab r updates s = updateTab (activeTabId r) updates s"

text \<open>\<^verbatim>\<open>handleNewTab\<close>: \<^verbatim>\<open>setTabs([...tabs, newTab])\<close> writes a list built from the
  render's \<^verbatim>\<open>tabs\<close>.\<close>

definition handleNewTab :: "app_state \<Rightarrow> string \<Rightarrow> app_state \<Rightarrow> app_state" where
  "handleNewTab r i s = s\<lparr>tabs := tabs r @ [new_tab i], activeTabId := i\<rparr>"

text \<open>\<^verbatim>\<open>handleCloseTab\<close>. \<^verbatim>\<open>newTabs[newTabs.length - 1].id\<close> throws on an empty
  \<^verbatim>\<open>newTabs\<close>, after \<^verbatim>\<open>setTabs(newTabs)\<close> has been queued: the tabs are set and the
  active id stays.\<close>

definition handleCloseTab :: "app_state \<Rightarrow> string \<Rightarrow> app_state \<Rightarrow> app_state" where
  "handleCloseTab r i s =
     (if length (tabs r) = 1 then s
      else
        let newTabs = filter (\<lambda>t. tab_id t \<noteq> i) (tabs r);
            s1 = s\<lparr>tabs := newTabs\<rparr>
        in if activeTabId r = i then
             (case newTabs of
                [] \<Rightarrow> s1
              | _ # _ \<Rightarrow> s1\<lparr>activeTabId := tab_id (last newTabs)\<rparr>)
           else s1)"

subsection \<open>The collaborator (services/geminiService.ts)\<close>

text \<open>
  What \<^verbatim>\<open>await ai.models.generateContent(...)\<close> followed by \<^verbatim>\<open>response.text\<close> comes
  to: \<open>Resolved t\<close> with \<open>t\<close> the text (\<open>None\<close> for \<^verbatim>\<open>undefined\<close>), or \<open>Rejected m\<close>
  when it throws, \<open>m\<close> being the message when the thrown value is an \<^verbatim>\<open>Error\<close>. It is an
  input of the model. A string is a list of code units below 256.
\<close>

datatype ai_result = Resolved "string option" | Rejected "string option"

definition fence :: string where
  "fence = [CHR 0x60, CHR 0x60, CHR 0x60]"

definition is_letter :: "char \<Rightarrow> bool" where
  "is_letter c = (let n = (of_char c :: nat) in (65 \<le> n \<and> n \<le> 90) \<or> (97 \<le> n \<and> n \<le> 122))"

text \<open>The rest of a text matched by \<^verbatim>\<open>[a-z]*\n\<close> under the flag \<^verbatim>\<open>i\<close>, at its start.\<close>

fun fence_lang :: "string \<Rightarrow> string option" where
  "fence_lang [] = None"
| "fence_lang (c # cs) =
     (if c = CHR 0x0A then Some cs else if is_letter c then fence_lang cs else None)"

text \<open>\<^verbatim>\<open>text.replace(/```[a-z]*\n/gi, '')\<close>.\<close>

function remove_open_fences :: "string \<Rightarrow> string" where
  "remove_open_fences [] = []"
| "remove_open_fences (c # cs) =
     (if take 3 (c # cs) = fence then
        (case fence_lang (drop 3 (c # cs)) of
           Some rest \<Rightarrow> remove_open_fences rest
         | None \<Rightarrow> c # remove_open_fences cs)
      else c # remove_open_fences cs)"
  by pat_completeness auto
termination
proof (relation "measure length")
  fix c cs rest
  assume matched: "fence_lang (drop 3 (c # cs)) = Some rest"
  have shorter: "length r < length xs" if "fence_lang xs = Some r" for xs r
    using that by (induction xs) (auto split: if_splits)
  from shorter [OF matched] show "(rest, c # cs) \<in> measure length" by simp
qed auto

text \<open>\<^verbatim>\<open>.replace(/```/g, '')\<close>.\<close>

fun remove_fences :: "string \<Rightarrow> string" where
  "remove_fences (a # b # c # cs) =
     (if [a, b, c] = fence then remove_fences cs else a # remove_fences (b # c # cs))"
| "remove_fences cs = cs"

definition is_space :: "char \<Rightarrow> bool" where
  "is_space c = (of_char c \<in> {9, 10, 11, 12, 13, 32, 160 :: nat})"

definition trim :: "string \<Rightarrow> string" where
  "trim t = rev (dropWhile is_space (rev (dropWhile is_space t)))"

definition cleanResponse :: "string option \<Rightarrow> string" where
  "cleanResponse text =
     (case text of
        None \<Rightarrow> []
      | Some t \<Rightarrow> if t = [] then [] else trim (remove_fences (remove_open_fences t)))"

text \<open>
  \<^verbatim>\<open>generatePageContent\<close>. Its arguments only choose the words of the prompt, so the
  model takes the outcome of the request in their place. The whole body is inside
  \<^verbatim>\<open>try\<close>, and \<^verbatim>\<open>catch\<close> returns a page that shows the error: the promise never
  rejects. (The error page's Russian words are transliterated.)
\<close>

definition generatePageContent :: "ai_result \<Rightarrow> string" where
  "generatePageContent ai =
     (case ai of
        Resolved t \<Rightarrow>
          (let text = cleanResponse t
           in ''<div class=\"min-h-[150vh] bg-white text-gray-900 font-sans\">''
              @ (if text = [] then ''Failed to load content.'' else text) @ ''</div>'')
      | Rejected m \<Rightarrow>
          ''<div class=\"p-8\">Oshibka generatsii kontenta: ''
            @ (case m of Some msg \<Rightarrow> msg | None \<Rightarrow> ''Unknown error'') @ ''</div>'')"

text \<open>A call of \<^verbatim>\<open>generatePageContent(url, title, isCensored)\<close> by a handler: the page,
  and the call noted in \<open>genCalls\<close>.\<close>

definition call_generatePageContent ::
  "ai_result \<Rightarrow> string \<Rightarrow> string \<Rightarrow> bool \<Rightarrow> app_state \<Rightarrow> string \<times> app_state" where
  "call_generatePageContent ai u ttl isCensored s =
     (generatePageContent ai, s\<lparr>genCalls := genCalls s @ [(u, ttl, isCensored)]\<rparr>)"


text \<open>
  A value as \<^verbatim>\<open>JSON.parse\<close> returns it: \<^verbatim>\<open>null\<close>, a boolean, a number (\<open>JNumber m e\<close> is
  \<open>m * 2 ^ e\<close>, which every double is), a string, an array or an object with its keys in
  order. A \<^verbatim>\<open>SearchResult\<close> object literal is the object of its three keys.
\<close>

datatype json =
    JNull
  | JBool bool
  | JNumber int int
  | JString string
  | JArray "json list"
  | JObject "(string \<times> json) list"



section \<open>Navigation (App.tsx)\<close>

text \<open>\<^verbatim>\<open>xs.slice(0, e)\<close>: a negative end counts from the end of the array.\<close>

definition slice0 :: "'a list \<Rightarrow> int \<Rightarrow> 'a list" where
  "slice0 xs e =
     (let n = int (length xs);
          k = (if e < 0 then max (n + e) 0 else min e n)
      in take (nat k) xs)"

text \<open>\<^verbatim>\<open>xs[i]\<close>, \<open>None\<close> for \<^verbatim>\<open>undefined\<close>.\<close>

definition index :: "'a list \<Rightarrow> int \<Rightarrow> 'a option" where
  "index xs i = (if 0 \<le> i \<and> i < int (length xs) then Some (xs ! nat i) else None)"

text \<open>The test \<^verbatim>\<open>cachedSite && cachedSite.content\<close>: when it holds, the content and the
  title of the record. An empty string is falsy, like \<^verbatim>\<open>null\<close>.\<close>

definition cached_page :: "CachedSiteData option \<Rightarrow> (string \<times> string) option" where
  "cached_page cachedSite =
     (case cachedSite of
        None \<Rightarrow> None
      | Some c \<Rightarrow>
          (case site_content c of
             None \<Rightarrow> None
           | Some html \<Rightarrow> if html = [] then None else Some (html, site_title c)))"

text \<open>
  \<^verbatim>\<open>handleNavigate(url, newTabId?)\<close>. An empty \<^verbatim>\<open>newTabId\<close> is falsy, like a missing
  one. The \<^verbatim>\<open>try\<close> block throws only in \<^verbatim>\<open>new URL(url)\<close>:
  \<^verbatim>\<open>generatePageContent\<close> never rejects, and the updater of \<^verbatim>\<open>updateCache\<close> is not run
  inside the block.
\<close>

definition handleNavigate ::
  "(string \<Rightarrow> string option) \<Rightarrow> int \<Rightarrow> ai_result \<Rightarrow> app_state \<Rightarrow> string \<Rightarrow> string option
     \<Rightarrow> app_state \<Rightarrow> app_state option" where
  "handleNavigate hn now ai r u newTabId s =
     (let targetTabId =
            (case newTabId of
               None \<Rightarrow> activeTabId r
             | Some i \<Rightarrow> if i = [] then activeTabId r else i)
      in case find_tab targetTabId (tabs r) of
           None \<Rightarrow> Some s
         | Some targetTab \<Rightarrow>
             if u = about_home then
               Some (updateTab targetTabId
                 (no_tab_fields\<lparr>p_url := Some about_home, p_title := Some home_title,
                    p_content := Some None, p_error := Some None,
                    p_history := Some (slice0 (history targetTab) (historyIndex targetTab + 1)
                                        @ [about_home]),
                    p_historyIndex := Some (historyIndex targetTab + 1)\<rparr>) s)
             else
               let cachedSite = siteCache r u;
                   s1 = updateTab targetTabId
                     (no_tab_fields\<lparr>p_url := Some u,
                        p_title := Some (case cachedSite of Some c \<Rightarrow> site_title c | None \<Rightarrow> u),
                        p_isLoading := Some True, p_error := Some None,
                        p_status := Some (case cachedSite of Some c \<Rightarrow> site_status c | None \<Rightarrow> NORMAL),
                        p_chatHistory := Some (case cachedSite of Some c \<Rightarrow> site_chatHistory c | None \<Rightarrow> []),
                        p_history := Some (slice0 (history targetTab) (historyIndex targetTab + 1) @ [u]),
                        p_historyIndex := Some (historyIndex targetTab + 1)\<rparr>) s;
                   s2 = s1\<lparr>isChatOpen := False\<rparr>;
                   currentStatus = (case cachedSite of Some c \<Rightarrow> site_status c | None \<Rightarrow> NORMAL)
               in if currentStatus = BLOCKED then
                    Some (updateTab targetTabId
                      (no_tab_fields\<lparr>p_isLoading := Some False,
                         p_error := Some (Some ''ERR_CONNECTION_RESET'')\<rparr>) s2)
                  else
                    (case cached_page cachedSite of
                       Some (html, ttl) \<Rightarrow>
                         Some (updateTab targetTabId
                           (no_tab_fields\<lparr>p_isLoading := Some False, p_content := Some (Some html),
                              p_title := Some ttl\<rparr>) s2)
                     | None \<Rightarrow>
                         (case hn u of
                            None \<Rightarrow>
                              Some (updateTab targetTabId
                                (no_tab_fields\<lparr>p_isLoading := Some False,
                                   p_error := Some (Some ''ERR_CONNECTION_TIMED_OUT'')\<rparr>) s2)
                          | Some ttl \<Rightarrow>
                              (let (html, s3) = call_generatePageContent ai u ttl
                                                  (currentStatus = CONTENT_REMOVED) s2
                               in case updateCache hn now u
                                         (no_site_fields\<lparr>p_site_content := Some (Some html),
                                            p_site_title := Some ttl,
                                            p_site_status := Some NORMAL\<rparr>) s3 of
                                    None \<Rightarrow> None
                                  | Some s4 \<Rightarrow>
                                      Some (updateTab targetTabId
                                        (no_tab_fields\<lparr>p_isLoading := Some False,
                                           p_content := Some (Some html),
                                           p_title := Some ttl\<rparr>) s4)))))"

text \<open>
  \<^verbatim>\<open>reloadContentForUrl(url, tabId)\<close>. It reads \<^verbatim>\<open>tabs\<close> and \<^verbatim>\<open>siteCache\<close> of the render
  \<open>r\<close> whose handler calls it. In the \<^verbatim>\<open>try\<close> block \<^verbatim>\<open>new URL(url).hostname\<close> is an
  argument of the call, evaluated before it.
\<close>

definition reloadContentForUrl ::
  "(string \<Rightarrow> string option) \<Rightarrow> int \<Rightarrow> ai_result \<Rightarrow> app_state \<Rightarrow> string \<Rightarrow> string
     \<Rightarrow> app_state \<Rightarrow> app_state option" where
  "reloadContentForUrl hn now ai r u tabId s =
     (case find_tab tabId (tabs r) of
        None \<Rightarrow> Some s
      | Some tab \<Rightarrow>
          let cachedSite = siteCache r u;
              currentStatus = (case cachedSite of Some c \<Rightarrow> site_status c | None \<Rightarrow> status tab);
              s1 = updateTab tabId
                (no_tab_fields\<lparr>p_isLoading := Some True, p_error := Some None,
                   p_status := Some currentStatus\<rparr>) s
          in if currentStatus = BLOCKED then
               Some (updateTab tabId
                 (no_tab_fields\<lparr>p_isLoading := Some False,
                    p_error := Some (Some ''ERR_CONNECTION_RESET'')\<rparr>) s1)
             else
               (case cached_page cachedSite of
                  Some (html, ttl) \<Rightarrow>
                    Some (updateTab tabId
                      (no_tab_fields\<lparr>p_isLoading := Some False, p_content := Some (Some html),
                         p_title := Some ttl\<rparr>) s1)
                | None \<Rightarrow>
                    (case hn u of
                       None \<Rightarrow>
                         Some (updateTab tabId
                           (no_tab_fields\<lparr>p_isLoading := Some False,
                              p_error := Some (Some ''ERR_LOAD'')\<rparr>) s1)
                     | Some host \<Rightarrow>
                         (let (html, s2) = call_generatePageContent ai u host
                                             (currentStatus = CONTENT_REMOVED) s1
                          in case updateCache hn now u
                                    (no_site_fields\<lparr>p_site_content := Some (Some html)\<rparr>) s2 of
                               None \<Rightarrow> None
                             | Some s3 \<Rightarrow>
                                 Some (updateTab tabId
                                   (no_tab_fields\<lparr>p_isLoading := Some False,
                                      p_content := Some (Some html),
                                      p_title := Some host\<rparr>) s3)))))"

text \<open>
  \<^verbatim>\<open>handleBack\<close> and \<^verbatim>\<open>handleForward\<close>. \<^verbatim>\<open>getActiveTab()!\<close> on a state without the
  active tab is \<^verbatim>\<open>undefined\<close>, and the render that would build the handler already
  throws at \<^verbatim>\<open>activeTab.url\<close>: \<open>None\<close>. \<^verbatim>\<open>tab.history[newIndex]\<close> out of range is
  \<^verbatim>\<open>undefined\<close> and would become the tab's \<^verbatim>\<open>url\<close>: \<open>None\<close> as well.
\<close>

definition handleBack ::
  "(string \<Rightarrow> string option) \<Rightarrow> int \<Rightarrow> ai_result \<Rightarrow> app_state \<Rightarrow> app_state \<Rightarrow> app_state option" where
  "handleBack hn now ai r s =
     (case getActiveTab r of
        None \<Rightarrow> None
      | Some tab \<Rightarrow>
          if historyIndex tab > 0 then
            (let newIndex = historyIndex tab - 1
             in case index (history tab) newIndex of
                  None \<Rightarrow> None
                | Some prevUrl \<Rightarrow>
                    (let s1 = updateActiveTab r
                           (no_tab_fields\<lparr>p_historyIndex := Some newIndex, p_url := Some prevUrl\<rparr>) s
                     in if prevUrl = about_home then
                          Some (updateActiveTab r
                            (no_tab_fields\<lparr>p_content := Some None, p_error := Some None,
                               p_title := Some home_title\<rparr>) s1)
                        else reloadContentForUrl hn now ai r prevUrl (tab_id tab) s1))
          else Some s)"

definition handleForward ::
  "(string \<Rightarrow> string option) \<Rightarrow> int \<Rightarrow> ai_result \<Rightarrow> app_state \<Rightarrow> app_state \<Rightarrow> app_state option" where
  "handleForward hn now ai r s =
     (case getActiveTab r of
        None \<Rightarrow> None
      | Some tab \<Rightarrow>
          if historyIndex tab < int (length (history tab)) - 1 then
            (let newIndex = historyIndex tab + 1
             in case index (history tab) newIndex of
                  None \<Rightarrow> None
                | Some nextUrl \<Rightarrow>
                    (let s1 = updateActiveTab r
                           (no_tab_fields\<lparr>p_historyIndex := Some newIndex, p_url := Some nextUrl\<rparr>) s
                     in if nextUrl = about_home then
                          Some (updateActiveTab r
                            (no_tab_fields\<lparr>p_content := Some None, p_error := Some None,
                               p_title := Some home_title\<rparr>) s1)
                        else reloadContentForUrl hn now ai r nextUrl (tab_id tab) s1))
          else Some s)"

section \<open>Enforcement, court and chat (App.tsx)\<close>

text \<open>\<^verbatim>\<open>handleBlock\<close>; \<open>willAppeal\<close> is the outcome of \<^verbatim>\<open>Math.random() < 0.4\<close>. The
  \<^verbatim>\<open>alert\<close> changes no state.\<close>

definition handleBlock ::
  "(string \<Rightarrow> string option) \<Rightarrow> int \<Rightarrow> ai_result \<Rightarrow> bool \<Rightarrow> app_state \<Rightarrow> app_state \<Rightarrow> app_state option" where
  "handleBlock hn now ai willAppeal r s =
     (case getActiveTab r of
        None \<Rightarrow> None
      | Some active \<Rightarrow>
          if url active = about_home then Some s
          else
            (let newStatus = (if willAppeal then UNDER_APPEAL else BLOCKED)
             in case updateCache hn now (url active)
                       (no_site_fields\<lparr>p_site_status := Some newStatus\<rparr>) s of
                  None \<Rightarrow> None
                | Some s1 \<Rightarrow>
                    (let s2 = updateActiveTab r (no_tab_fields\<lparr>p_status := Some newStatus\<rparr>) s1
                     in reloadContentForUrl hn now ai r (url active) (tab_id active) s2)))"

text \<open>\<^verbatim>\<open>handleCourtClose(finalVerdict)\<close>.\<close>

definition handleCourtClose ::
  "(string \<Rightarrow> string option) \<Rightarrow> int \<Rightarrow> ai_result \<Rightarrow> Verdict \<Rightarrow> app_state \<Rightarrow> app_state \<Rightarrow> app_state option" where
  "handleCourtClose hn now ai finalVerdict r s =
     (case getActiveTab r of
        None \<Rightarrow> None
      | Some active \<Rightarrow>
          (let newStatus = (if finalVerdict = UPHOLD then BLOCKED else NORMAL)
           in case updateCache hn now (url active)
                     (no_site_fields\<lparr>p_site_status := Some newStatus\<rparr>) s of
                None \<Rightarrow> None
              | Some s1 \<Rightarrow>
                  (let s2 = updateActiveTab r (no_tab_fields\<lparr>p_status := Some newStatus\<rparr>) s1;
                       s3 = s2\<lparr>isCourtOpen := False\<rparr>
                   in reloadContentForUrl hn now ai r (url active) (tab_id active) s3)))"

text \<open>
  \<^verbatim>\<open>handleChatSendMessage(text)\<close>, in the two parts that the \<^verbatim>\<open>await\<close> separates.
  \<open>reply\<close> and \<open>agreedToRemove\<close> are what \<^verbatim>\<open>chatWithSiteOwner\<close> resolved to; \<open>now\<close>
  and \<open>later\<close> are the clock at the two parts. The second part still belongs to the
  closure of the render \<open>r\<close>: \<^verbatim>\<open>tab\<close> and \<^verbatim>\<open>newHistory\<close> are the values of the first.
\<close>

definition chat_newHistory :: "BrowserTab \<Rightarrow> string \<Rightarrow> int \<Rightarrow> ChatMessage list" where
  "chat_newHistory tab txt now =
     chatHistory tab @ [\<lparr>role = User, msg_text = txt, timestamp = now\<rparr>]"

definition chat_finalHistory :: "BrowserTab \<Rightarrow> string \<Rightarrow> int \<Rightarrow> string \<Rightarrow> int \<Rightarrow> ChatMessage list" where
  "chat_finalHistory tab txt now reply later =
     chat_newHistory tab txt now @ [\<lparr>role = Model, msg_text = reply, timestamp = later\<rparr>]"

definition handleChatSendMessage_send ::
  "(string \<Rightarrow> string option) \<Rightarrow> int \<Rightarrow> app_state \<Rightarrow> string \<Rightarrow> app_state \<Rightarrow> app_state option" where
  "handleChatSendMessage_send hn now r txt s =
     (case getActiveTab r of
        None \<Rightarrow> None
      | Some tab \<Rightarrow>
          if url tab = about_home then Some s
          else
            (let newHistory = chat_newHistory tab txt now;
                 s1 = updateActiveTab r (no_tab_fields\<lparr>p_chatHistory := Some newHistory\<rparr>) s
             in case updateCache hn now (url tab)
                       (no_site_fields\<lparr>p_site_chatHistory := Some newHistory\<rparr>) s1 of
                  None \<Rightarrow> None
                | Some s2 \<Rightarrow> Some (s2\<lparr>isChatTyping := True\<rparr>)))"

definition handleChatSendMessage_reply ::
  "(string \<Rightarrow> string option) \<Rightarrow> int \<Rightarrow> int \<Rightarrow> app_state \<Rightarrow> string \<Rightarrow> string \<Rightarrow> bool
     \<Rightarrow> app_state \<Rightarrow> app_state option" where
  "handleChatSendMessage_reply hn now later r txt reply agreedToRemove s =
     (case getActiveTab r of
        None \<Rightarrow> None
      | Some tab \<Rightarrow>
          if url tab = about_home then Some s
          else
            (let s1 = s\<lparr>isChatTyping := False\<rparr>;
                 finalHistory = chat_finalHistory tab txt now reply later;
                 statusUpdates =
                   (if agreedToRemove then
                      no_site_fields\<lparr>p_site_chatHistory := Some finalHistory,
                        p_site_status := Some CONTENT_REMOVED, p_site_content := Some None\<rparr>
                    else no_site_fields\<lparr>p_site_chatHistory := Some finalHistory\<rparr>)
             in case updateCache hn later (url tab) statusUpdates s1 of
                  None \<Rightarrow> None
                | Some s2 \<Rightarrow>
                    Some (updateActiveTab r
                      (if agreedToRemove then
                         no_tab_fields\<lparr>p_chatHistory := Some finalHistory,
                           p_status := Some CONTENT_REMOVED\<rparr>
                       else no_tab_fields\<lparr>p_chatHistory := Some finalHistory\<rparr>) s2)))"

definition handleChatSendMessage ::
  "(string \<Rightarrow> string option) \<Rightarrow> int \<Rightarrow> int \<Rightarrow> ai_result \<Rightarrow> app_state \<Rightarrow> string \<Rightarrow> string \<Rightarrow> bool
     \<Rightarrow> app_state \<Rightarrow> app_state option" where
  "handleChatSendMessage hn now later ai r txt reply agreedToRemove s =
     (case handleChatSendMessage_send hn now r txt s of
        None \<Rightarrow> None
      | Some s1 \<Rightarrow>
          (case handleChatSendMessage_reply hn now later r txt reply agreedToRemove s1 of
             None \<Rightarrow> None
           | Some s2 \<Rightarrow>
               (case getActiveTab r of
                  None \<Rightarrow> None
                | Some tab \<Rightarrow>
                    if url tab \<noteq> about_home \<and> agreedToRemove then
                      reloadContentForUrl hn later ai r (url tab) (tab_id tab) s2
                    else Some s2)))"

section \<open>Runs of user events\<close>

text \<open>
  The events of the tab strip and the navigation bar, as \<^verbatim>\<open>Browser\<close> raises them:
  \<^verbatim>\<open>onNavigate(url)\<close>, \<^verbatim>\<open>onBack\<close>, \<^verbatim>\<open>onForward\<close>, \<^verbatim>\<open>onNewTab\<close> (with the id that
  \<^verbatim>\<open>generateId()\<close> draws) and \<^verbatim>\<open>onCloseTab(id)\<close>. An occurrence of an event comes with
  the clock and with the outcome of the request to the collaborator, should the
  handler make one. React renders between two events, so the handler of an event is the
  closure of the state the event meets: the render state and the current state are the
  same.
\<close>

datatype event = Navigate string | Back | Forward | NewTab string | CloseTab string

type_synonym occurrence = "event \<times> int \<times> ai_result"

definition fire :: "(string \<Rightarrow> string option) \<Rightarrow> occurrence \<Rightarrow> app_state \<Rightarrow> app_state option" where
  "fire hn occ s =
     (case occ of (ev, now, ai) \<Rightarrow>
        (case ev of
           Navigate u \<Rightarrow> handleNavigate hn now ai s u None s
         | Back \<Rightarrow> handleBack hn now ai s s
         | Forward \<Rightarrow> handleForward hn now ai s s
         | NewTab i \<Rightarrow> Some (handleNewTab s i s)
         | CloseTab i \<Rightarrow> Some (handleCloseTab s i s)))"

fun run :: "(string \<Rightarrow> string option) \<Rightarrow> occurrence list \<Rightarrow> app_state \<Rightarrow> app_state option" where
  "run hn [] s = Some s"
| "run hn (occ # occs) s = (case fire hn occ s of None \<Rightarrow> None | Some s' \<Rightarrow> run hn occs s')"

fun is_nav :: "event \<Rightarrow> bool" where
  "is_nav (Navigate u) = True"
| "is_nav Back = True"
| "is_nav Forward = True"
| "is_nav (NewTab i) = False"
| "is_nav (CloseTab i) = False"

text \<open>The ids that \<^verbatim>\<open>generateId()\<close> draws in a run, in order.\<close>

fun new_ids :: "occurrence list \<Rightarrow> string list" where
  "new_ids [] = []"
| "new_ids ((NewTab i, now, ai) # occs) = i # new_ids occs"
| "new_ids (occ # occs) = new_ids occs"

subsection \<open>Invariants of the tab list\<close>

text \<open>Tab ids are unique and the active id is that of a tab (``\<^verbatim>\<open>id\<close>: unique per
  tab''); the history position of every tab points into its history.\<close>

definition ids_ok :: "app_state \<Rightarrow> bool" where
  "ids_ok s = (distinct (map tab_id (tabs s)) \<and> activeTabId s \<in> set (map tab_id (tabs s)))"

definition history_ok :: "app_state \<Rightarrow> bool" where
  "history_ok s =
     (\<forall>t \<in> set (tabs s). 0 \<le> historyIndex t \<and> historyIndex t < int (length (history t)))"

text \<open>What the two invariants read of a state: id, history and position of each tab.\<close>

definition hist_view :: "app_state \<Rightarrow> (string \<times> string list \<times> int) list" where
  "hist_view s = map (\<lambda>t. (tab_id t, history t, historyIndex t)) (tabs s)"

text \<open>The invariants on a view, with the active id \<open>a\<close>, and the view in which the entry
  of the tab \<open>a\<close> is \<open>e\<close>.\<close>

definition ok_view :: "string \<Rightarrow> (string \<times> string list \<times> int) list \<Rightarrow> bool" where
  "ok_view a v = (distinct (map fst v) \<and> a \<in> set (map fst v)
      \<and> (\<forall>(i, h, k) \<in> set v. 0 \<le> k \<and> k < int (length h)))"

definition set_entry ::
  "string \<Rightarrow> string list \<times> int \<Rightarrow> (string \<times> string list \<times> int) list
     \<Rightarrow> (string \<times> string list \<times> int) list" where
  "set_entry a e v = map (\<lambda>(j, h, k). if j = a then (j, e) else (j, h, k)) v"

section \<open>Inputs of the examples\<close>

text \<open>A hostname function that knows two sites, and the site record and the tab of a
  page that has been loaded and is shown.\<close>

definition demo_hn :: "string \<Rightarrow> string option" where
  "demo_hn = [''https://a.com/'' \<mapsto> ''a.com'', ''https://b.com/'' \<mapsto> ''b.com'']"

definition demo_site :: "SiteStatus \<Rightarrow> string option \<Rightarrow> ChatMessage list \<Rightarrow> CachedSiteData" where
  "demo_site st c h = \<lparr>site_url = ''https://a.com/'', site_title = ''a.com'', site_content = c,
     site_status = st, site_chatHistory = h, lastVisited = 0\<rparr>"

definition demo_tab :: "SiteStatus \<Rightarrow> string option \<Rightarrow> ChatMessage list \<Rightarrow> BrowserTab" where
  "demo_tab st c h = \<lparr>tab_id = ''t1'', url = ''https://a.com/'', title = ''a.com'',
     isLoading = False, history = [''about:home'', ''https://a.com/''], historyIndex = 1,
     content = c, status = st, chatHistory = h, error = None\<rparr>"

definition demo_state :: "CachedSiteData \<Rightarrow> BrowserTab \<Rightarrow> app_state" where
  "demo_state c t = \<lparr>siteCache = [''https://a.com/'' \<mapsto> c], tabs = [t], activeTabId = ''t1'',
     isChatOpen = False, isChatTyping = False, isCourtOpen = False, genCalls = []\<rparr>"





section \<open>Properties\<close>

subsection \<open>Tabs and their updates\<close>

lemma updateTab_frame:
  "siteCache (updateTab i u s) = siteCache s"
  "activeTabId (updateTab i u s) = activeTabId s"
  "genCalls (updateTab i u s) = genCalls s"
  "isChatOpen (updateTab i u s) = isChatOpen s"
  "isCourtOpen (updateTab i u s) = isCourtOpen s"
  by (simp_all add: updateTab_def)

lemma getActiveTab_find: "getActiveTab s = find_tab (activeTabId s) (tabs s)"
  by (simp add: getActiveTab_def)

lemma find_tab_id: "find_tab i ts = Some t \<Longrightarrow> tab_id t = i"
  by (induction ts) (auto simp add: find_tab_def split: if_splits)

lemma merge_tab_keeps_id: "p_tab_id u = None \<Longrightarrow> tab_id (merge_tab t u) = tab_id t"
  by (simp add: merge_tab_def spread_def)

lemma find_tab_updateTab:
  assumes "p_tab_id u = None"
  shows "find_tab j (tabs (updateTab i u s))
         = (if j = i then map_option (\<lambda>t. merge_tab t u) (find_tab j (tabs s))
            else find_tab j (tabs s))"
proof -
  have "find_tab j (map (\<lambda>tab. if tab_id tab = i then merge_tab tab u else tab) ts)
        = (if j = i then map_option (\<lambda>t. merge_tab t u) (find_tab j ts) else find_tab j ts)" for ts
    using assms by (induction ts) (auto simp add: find_tab_def merge_tab_keeps_id)
  then show ?thesis by (simp add: updateTab_def)
qed

text \<open>The definitions that a run on a concrete state unfolds.\<close>

lemmas run_defs = handleNavigate_def reloadContentForUrl_def handleBlock_def handleCourtClose_def
  handleBack_def handleForward_def handleNewTab_def handleCloseTab_def fire_def
  updateTab_def updateActiveTab_def updateCache_def updateCache_updater_def
  merge_tab_def merge_site_def spread_def no_tab_fields_def no_site_fields_def find_tab_def
  getActiveTab_def cached_page_def call_generatePageContent_def slice0_def index_def
  about_home_def home_title_def initial_state_def new_tab_def Let_def
  demo_hn_def demo_site_def demo_tab_def demo_state_def
  handleChatSendMessage_def handleChatSendMessage_send_def handleChatSendMessage_reply_def
  chat_newHistory_def chat_finalHistory_def

subsection \<open>The site record store\<close>

text \<open>
  C8, as the code has it. \<^verbatim>\<open>updateCache(url, data)\<close> stores under \<open>url\<close> the previous
  record, or the default record (status \<open>NORMAL\<close>, no content, empty transcript, the
  hostname as title) when there was none and the URL parses, with every field that
  \<open>data\<close> names overwritten, every other field kept, and \<open>lastVisited\<close> set to the
  clock; the records of other URLs, the tabs and the active tab stay. The call itself
  has no value: the merged record is stored, not returned.
\<close>

theorem updateCache_field_merge:
  assumes "base = (case siteCache s u of Some existing \<Rightarrow> existing
                   | None \<Rightarrow> \<lparr>site_url = u, site_title = host, site_content = None,
                       site_status = NORMAL, site_chatHistory = [], lastVisited = now\<rparr>)"
      and "siteCache s u = None \<Longrightarrow> hn u = Some host"
  shows "\<exists>s'. updateCache_call hn now u data s = Some (None, s')
           \<and> (\<exists>rec. siteCache s' u = Some rec
           \<and> site_url rec = (case p_site_url data of None \<Rightarrow> site_url base | Some v \<Rightarrow> v)
           \<and> site_title rec = (case p_site_title data of None \<Rightarrow> site_title base | Some v \<Rightarrow> v)
           \<and> site_content rec = (case p_site_content data of None \<Rightarrow> site_content base | Some v \<Rightarrow> v)
           \<and> site_status rec = (case p_site_status data of None \<Rightarrow> site_status base | Some v \<Rightarrow> v)
           \<and> site_chatHistory rec =
                (case p_site_chatHistory data of None \<Rightarrow> site_chatHistory base | Some v \<Rightarrow> v)
           \<and> lastVisited rec = now)
           \<and> (\<forall>v. v \<noteq> u \<longrightarrow> siteCache s' v = siteCache s v)
           \<and> tabs s' = tabs s \<and> activeTabId s' = activeTabId s"
  using assms
  by (cases "siteCache s u")
     (auto simp add: updateCache_call_def updateCache_def updateCache_updater_def merge_site_def
        spread_def split: option.splits)

text \<open>Witness for C8: a first write, of the status alone, for a URL without a record.\<close>

theorem updateCache_field_merge_witness:
  "\<exists>s'. updateCache_call demo_hn 7 ''https://a.com/''
           (no_site_fields\<lparr>p_site_status := Some BLOCKED\<rparr>) (initial_state ''t1'' Map.empty)
           = Some (None, s')
         \<and> (\<exists>rec. siteCache s' ''https://a.com/'' = Some rec \<and> site_url rec = ''https://a.com/''
              \<and> site_title rec = ''a.com'' \<and> site_content rec = None \<and> site_status rec = BLOCKED
              \<and> site_chatHistory rec = [] \<and> lastVisited rec = 7)
         \<and> siteCache s' ''https://b.com/'' = None
         \<and> tabs s' = [new_tab ''t1''] \<and> activeTabId s' = ''t1''"
  using updateCache_field_merge [where s = "initial_state ''t1'' Map.empty"
    and u = "''https://a.com/''" and host = "''a.com''" and now = 7 and hn = demo_hn
    and data = "no_site_fields\<lparr>p_site_status := Some BLOCKED\<rparr>", OF refl]
  by (auto simp add: initial_state_def no_site_fields_def demo_hn_def)

text \<open>
  Counterexample to C8 as stated (``the merged record is returned to the caller''): the
  call stores the merged record and its value is \<^verbatim>\<open>undefined\<close>.
\<close>

theorem updateCache_call_value:
  "updateCache_call demo_hn 7 ''https://a.com/''
     (no_site_fields\<lparr>p_site_status := Some BLOCKED\<rparr>) (initial_state ''t1'' Map.empty)
   = Some (None, (initial_state ''t1'' Map.empty)\<lparr>siteCache := [''https://a.com/'' \<mapsto>
        \<lparr>site_url = ''https://a.com/'', site_title = ''a.com'', site_content = None,
         site_status = BLOCKED, site_chatHistory = [], lastVisited = 7\<rparr>]\<rparr>)"
  by (simp add: updateCache_call_def updateCache_def updateCache_updater_def merge_site_def
        spread_def no_site_fields_def initial_state_def demo_hn_def)

subsection \<open>Navigation to a site\<close>

text \<open>
  C2. A navigation to a URL other than the start page whose record in the cache has
  status \<open>BLOCKED\<close>, on a tab that exists: the handler finishes, the tab ends with
  \<open>error = ERR_CONNECTION_RESET\<close> and \<open>isLoading = false\<close>, no call to
  \<^verbatim>\<open>generatePageContent\<close> is made, whatever the collaborator would have answered, and the
  cache is as before.
\<close>

theorem navigate_blocked_resets_connection:
  assumes "siteCache s u = Some c" and "site_status c = BLOCKED" and "u \<noteq> about_home"
      and "target = (case newTabId of None \<Rightarrow> activeTabId s
                     | Some i \<Rightarrow> if i = [] then activeTabId s else i)"
      and "find_tab target (tabs s) = Some t"
  shows "\<exists>s' t'. handleNavigate hn now ai s u newTabId s = Some s'
           \<and> find_tab target (tabs s') = Some t'
           \<and> error t' = Some ''ERR_CONNECTION_RESET'' \<and> isLoading t' = False
           \<and> genCalls s' = genCalls s \<and> siteCache s' = siteCache s"
  using assms
  by (simp add: handleNavigate_def Let_def find_tab_updateTab updateTab_frame no_tab_fields_def
        merge_tab_def spread_def)

text \<open>Witness for C2: the start tab navigates to a blocked site that has cached content.\<close>

theorem navigate_blocked_resets_connection_witness:
  "\<exists>s' t'. handleNavigate demo_hn 5 (Resolved (Some ''hi''))
             (demo_state (demo_site BLOCKED (Some ''<p>'') []) (new_tab ''t1'')) ''https://a.com/'' None
             (demo_state (demo_site BLOCKED (Some ''<p>'') []) (new_tab ''t1'')) = Some s'
           \<and> find_tab ''t1'' (tabs s') = Some t'
           \<and> error t' = Some ''ERR_CONNECTION_RESET'' \<and> isLoading t' = False
           \<and> genCalls s' = []
           \<and> siteCache s' = [''https://a.com/'' \<mapsto> demo_site BLOCKED (Some ''<p>'') []]"
  using navigate_blocked_resets_connection
    [where s = "demo_state (demo_site BLOCKED (Some ''<p>'') []) (new_tab ''t1'')"
       and u = "''https://a.com/''" and c = "demo_site BLOCKED (Some ''<p>'') []"
       and newTabId = None and t = "new_tab ''t1''" and hn = demo_hn and now = 5
       and ai = "Resolved (Some ''hi'')", OF _ _ _ refl]
  by (simp add: demo_state_def demo_site_def about_home_def find_tab_def new_tab_def)

text \<open>
  C1, as the code has it. A URL other than the start page that parses, on a tab that
  exists, whose record has no cached content (no record, content \<^verbatim>\<open>null\<close> or empty) and
  is not \<open>BLOCKED\<close>. A navigation stores the page that \<^verbatim>\<open>generatePageContent\<close> returns
  in the record, together with the hostname as title and the status \<open>NORMAL\<close>, whatever
  the status was before. \<^verbatim>\<open>reloadContentForUrl\<close>, the re-resolution of back, forward and
  the enforcement actions, stores the page alone: there the status of the record, also
  \<open>CONTENT_REMOVED\<close>, and its title stay. Either way the one call to the collaborator
  carries \<open>isCensored\<close> exactly when the status was \<open>CONTENT_REMOVED\<close>.
\<close>

theorem generation_success_status:
  assumes "u \<noteq> about_home"
      and "target = (case newTabId of None \<Rightarrow> activeTabId s
                     | Some i \<Rightarrow> if i = [] then activeTabId s else i)"
      and "find_tab target (tabs s) = Some t"
      and "cached_page (siteCache s u) = None"
      and "\<forall>c. siteCache s u = Some c \<longrightarrow> site_status c \<noteq> BLOCKED"
      and "hn u = Some host"
  shows "(\<exists>s' rec. handleNavigate hn now ai s u newTabId s = Some s'
           \<and> siteCache s' u = Some rec
           \<and> site_content rec = Some (generatePageContent ai)
           \<and> site_title rec = host
           \<and> site_status rec = NORMAL
           \<and> genCalls s' = genCalls s
                @ [(u, host, \<exists>c. siteCache s u = Some c \<and> site_status c = CONTENT_REMOVED)])
       \<and> (\<forall>c. siteCache s u = Some c \<longrightarrow>
            (\<exists>s' rec. reloadContentForUrl hn now ai s u target s = Some s'
               \<and> siteCache s' u = Some rec
               \<and> site_content rec = Some (generatePageContent ai)
               \<and> site_title rec = site_title c
               \<and> site_status rec = site_status c
               \<and> genCalls s' = genCalls s @ [(u, host, site_status c = CONTENT_REMOVED)]))"
proof (intro conjI allI impI)
  show "\<exists>s' rec. handleNavigate hn now ai s u newTabId s = Some s'
           \<and> siteCache s' u = Some rec
           \<and> site_content rec = Some (generatePageContent ai)
           \<and> site_title rec = host
           \<and> site_status rec = NORMAL
           \<and> genCalls s' = genCalls s
                @ [(u, host, \<exists>c. siteCache s u = Some c \<and> site_status c = CONTENT_REMOVED)]"
    using assms
    by (cases "siteCache s u")
       (auto simp add: handleNavigate_def Let_def find_tab_updateTab updateTab_frame no_tab_fields_def
          no_site_fields_def merge_tab_def merge_site_def spread_def call_generatePageContent_def
          updateCache_def updateCache_updater_def)
next
  fix c
  assume "siteCache s u = Some c"
  with assms show "\<exists>s' rec. reloadContentForUrl hn now ai s u target s = Some s'
               \<and> siteCache s' u = Some rec
               \<and> site_content rec = Some (generatePageContent ai)
               \<and> site_title rec = site_title c
               \<and> site_status rec = site_status c
               \<and> genCalls s' = genCalls s @ [(u, host, site_status c = CONTENT_REMOVED)]"
    by (auto simp add: reloadContentForUrl_def Let_def updateTab_frame no_tab_fields_def
          no_site_fields_def merge_site_def spread_def call_generatePageContent_def
          updateCache_def updateCache_updater_def)
qed

text \<open>Witness for C1: a site whose record is \<open>CONTENT_REMOVED\<close> and has no content; the
  navigation makes it \<open>NORMAL\<close>, the re-resolution leaves it \<open>CONTENT_REMOVED\<close>.\<close>

theorem generation_success_status_witness:
  "(\<exists>s' rec. handleNavigate demo_hn 5 (Resolved (Some ''hi''))
        (demo_state (demo_site CONTENT_REMOVED None []) (demo_tab CONTENT_REMOVED None []))
        ''https://a.com/'' None
        (demo_state (demo_site CONTENT_REMOVED None []) (demo_tab CONTENT_REMOVED None [])) = Some s'
           \<and> siteCache s' ''https://a.com/'' = Some rec
           \<and> site_content rec = Some (generatePageContent (Resolved (Some ''hi'')))
           \<and> site_title rec = ''a.com''
           \<and> site_status rec = NORMAL
           \<and> genCalls s' = [(''https://a.com/'', ''a.com'', True)])
   \<and> (\<exists>s' rec. reloadContentForUrl demo_hn 5 (Resolved (Some ''hi''))
        (demo_state (demo_site CONTENT_REMOVED None []) (demo_tab CONTENT_REMOVED None []))
        ''https://a.com/'' ''t1''
        (demo_state (demo_site CONTENT_REMOVED None []) (demo_tab CONTENT_REMOVED None [])) = Some s'
           \<and> siteCache s' ''https://a.com/'' = Some rec
           \<and> site_content rec = Some (generatePageContent (Resolved (Some ''hi'')))
           \<and> site_status rec = CONTENT_REMOVED
           \<and> genCalls s' = [(''https://a.com/'', ''a.com'', True)])"
  using generation_success_status
    [where s = "demo_state (demo_site CONTENT_REMOVED None []) (demo_tab CONTENT_REMOVED None [])"
       and u = "''https://a.com/''" and newTabId = None and t = "demo_tab CONTENT_REMOVED None []"
       and hn = demo_hn and host = "''a.com''" and now = 5 and ai = "Resolved (Some ''hi'')",
     OF _ refl]
  by (auto simp add: demo_state_def demo_site_def demo_tab_def about_home_def find_tab_def
        cached_page_def demo_hn_def)

text \<open>
  Counterexample to C1 as stated (``never overwrites a \<open>CONTENT_REMOVED\<close> status with
  \<open>NORMAL\<close>''): the record of the site is \<open>CONTENT_REMOVED\<close> and without content, as the
  chat leaves it; after the navigation it is \<open>NORMAL\<close>.
\<close>

theorem navigate_overwrites_content_removed:
  "map_option siteCache
     (handleNavigate demo_hn 5 (Resolved (Some ''hi''))
        (demo_state (demo_site CONTENT_REMOVED None []) (demo_tab CONTENT_REMOVED None []))
        ''https://a.com/'' None
        (demo_state (demo_site CONTENT_REMOVED None []) (demo_tab CONTENT_REMOVED None [])))
   = Some [''https://a.com/'' \<mapsto>
        \<lparr>site_url = ''https://a.com/'', site_title = ''a.com'',
         site_content = Some (generatePageContent (Resolved (Some ''hi''))),
         site_status = NORMAL, site_chatHistory = [], lastVisited = 5\<rparr>]"
  by (simp add: run_defs)

text \<open>
  C7, at the failing input. The start tab navigates to a site without a record and the
  request to the collaborator fails with the message \<^verbatim>\<open>quota\<close>.
  \<^verbatim>\<open>generatePageContent\<close> turns the failure into a page, so the \<^verbatim>\<open>catch\<close> of
  \<^verbatim>\<open>handleNavigate\<close> is not reached: the error page is stored as the content of a new
  record with status \<open>NORMAL\<close>, and the tab shows it with \<open>error = null\<close>.
\<close>

theorem navigate_caches_error_page:
  "map_option siteCache
     (handleNavigate demo_hn 5 (Rejected (Some ''quota'')) (initial_state ''t1'' Map.empty)
        ''https://a.com/'' None (initial_state ''t1'' Map.empty))
   = Some [''https://a.com/'' \<mapsto>
        \<lparr>site_url = ''https://a.com/'', site_title = ''a.com'',
         site_content = Some ''<div class=\"p-8\">Oshibka generatsii kontenta: quota</div>'',
         site_status = NORMAL, site_chatHistory = [], lastVisited = 5\<rparr>]
   \<and> map_option tabs
     (handleNavigate demo_hn 5 (Rejected (Some ''quota'')) (initial_state ''t1'' Map.empty)
        ''https://a.com/'' None (initial_state ''t1'' Map.empty))
   = Some [\<lparr>tab_id = ''t1'', url = ''https://a.com/'', title = ''a.com'', isLoading = False,
        history = [''about:home'', ''https://a.com/''], historyIndex = 1,
        content = Some ''<div class=\"p-8\">Oshibka generatsii kontenta: quota</div>'',
        status = NORMAL, chatHistory = [], error = None\<rparr>]"
  by (simp add: run_defs generatePageContent_def)

subsection \<open>Search\<close>










subsection \<open>Block and court\<close>

text \<open>
  \<^verbatim>\<open>reloadContentForUrl\<close> decides by the record of the render \<open>r\<close>, not by the record of
  the state \<open>s\<close> it updates: when the render's record is not \<open>BLOCKED\<close> and has cached
  content, the tab gets that record's status and the cached page, and no error, whatever
  the cache of \<open>s\<close> says by now.
\<close>

lemma reload_reads_render:
  assumes "find_tab i (tabs r) = Some tab" and "find_tab i (tabs s) = Some tab'"
      and "siteCache r u = Some c" and "site_status c \<noteq> BLOCKED"
      and "cached_page (siteCache r u) = Some (html, ttl)"
  shows "\<exists>s' t'. reloadContentForUrl hn now ai r u i s = Some s'
           \<and> find_tab i (tabs s') = Some t' \<and> status t' = site_status c
           \<and> error t' = None \<and> content t' = Some html \<and> isLoading t' = False
           \<and> siteCache s' = siteCache s \<and> genCalls s' = genCalls s"
  using assms
  by (simp add: reloadContentForUrl_def Let_def find_tab_updateTab updateTab_frame no_tab_fields_def
        merge_tab_def spread_def)

text \<open>
  So \<^verbatim>\<open>handleBlock\<close> on a tab that shows a cached page of a site that was not blocked
  writes the drawn status to the record, and leaves the tab with the status the record
  had before, the cached page and no error, whatever the draw.
\<close>

lemma block_keeps_shown_page:
  assumes "getActiveTab s = Some t" and "url t \<noteq> about_home"
      and "siteCache s (url t) = Some c" and "site_status c \<noteq> BLOCKED"
      and "cached_page (siteCache s (url t)) = Some (html, ttl)"
  shows "\<exists>s' t' c'. handleBlock hn now ai willAppeal s s = Some s'
           \<and> getActiveTab s' = Some t' \<and> status t' = site_status c
           \<and> error t' = None \<and> content t' = Some html
           \<and> siteCache s' (url t) = Some c'
           \<and> site_status c' = (if willAppeal then UNDER_APPEAL else BLOCKED)"
proof -
  have ft: "find_tab (activeTabId s) (tabs s) = Some t"
    using assms(1) by (simp add: getActiveTab_find)
  have id: "tab_id t = activeTabId s"
    by (rule find_tab_id [OF ft])
  define st where "st = (if willAppeal then UNDER_APPEAL else BLOCKED)"
  define s1 where "s1 = s\<lparr>siteCache := (siteCache s)(url t \<mapsto>
      (merge_site c (no_site_fields\<lparr>p_site_status := Some st\<rparr>))\<lparr>lastVisited := now\<rparr>)\<rparr>"
  define s2 where "s2 = updateActiveTab s (no_tab_fields\<lparr>p_status := Some st\<rparr>) s1"
  have u1: "updateCache hn now (url t) (no_site_fields\<lparr>p_site_status := Some st\<rparr>) s = Some s1"
    using assms(3) by (simp add: updateCache_def updateCache_updater_def s1_def)
  have ft2: "find_tab (activeTabId s) (tabs s2)
             = Some (merge_tab t (no_tab_fields\<lparr>p_status := Some st\<rparr>))"
    using ft by (simp add: s2_def s1_def updateActiveTab_def find_tab_updateTab no_tab_fields_def)
  obtain s' t' where r: "reloadContentForUrl hn now ai s (url t) (activeTabId s) s2 = Some s'"
      "find_tab (activeTabId s) (tabs s') = Some t'" "status t' = site_status c"
      "error t' = None" "content t' = Some html" "siteCache s' = siteCache s2"
    using reload_reads_render [OF ft ft2 assms(3,4,5), of hn now ai] by blast
  have a: "activeTabId s' = activeTabId s"
    using r(1) ft assms(3,4,5)
    by (auto simp add: reloadContentForUrl_def Let_def updateTab_frame s2_def s1_def updateActiveTab_def)
  have h: "handleBlock hn now ai willAppeal s s = Some s'"
    using assms(1,2) u1 r(1) id
    by (simp add: handleBlock_def Let_def st_def [symmetric] s2_def [symmetric])
  have c': "siteCache s' (url t) = Some ((merge_site c (no_site_fields\<lparr>p_site_status := Some st\<rparr>))\<lparr>lastVisited := now\<rparr>)"
    by (simp add: r(6) s2_def s1_def updateActiveTab_def updateTab_frame)
  show ?thesis
    using h r(2,3,4,5) a c'
    by (simp add: getActiveTab_find merge_site_def spread_def no_site_fields_def st_def)
qed

text \<open>The same for \<^verbatim>\<open>handleCourtClose\<close>, with either verdict.\<close>

lemma court_close_keeps_shown_page:
  assumes "getActiveTab s = Some t"
      and "siteCache s (url t) = Some c" and "site_status c \<noteq> BLOCKED"
      and "cached_page (siteCache s (url t)) = Some (html, ttl)"
  shows "\<exists>s' t' c'. handleCourtClose hn now ai finalVerdict s s = Some s'
           \<and> getActiveTab s' = Some t' \<and> status t' = site_status c
           \<and> error t' = None \<and> content t' = Some html
           \<and> siteCache s' (url t) = Some c'
           \<and> site_status c' = (if finalVerdict = UPHOLD then BLOCKED else NORMAL)"
proof -
  have ft: "find_tab (activeTabId s) (tabs s) = Some t"
    using assms(1) by (simp add: getActiveTab_find)
  have id: "tab_id t = activeTabId s"
    by (rule find_tab_id [OF ft])
  define st where "st = (if finalVerdict = UPHOLD then BLOCKED else NORMAL)"
  define s1 where "s1 = s\<lparr>siteCache := (siteCache s)(url t \<mapsto>
      (merge_site c (no_site_fields\<lparr>p_site_status := Some st\<rparr>))\<lparr>lastVisited := now\<rparr>)\<rparr>"
  define s3 where "s3 = (updateActiveTab s (no_tab_fields\<lparr>p_status := Some st\<rparr>) s1)\<lparr>isCourtOpen := False\<rparr>"
  have u1: "updateCache hn now (url t) (no_site_fields\<lparr>p_site_status := Some st\<rparr>) s = Some s1"
    using assms(2) by (simp add: updateCache_def updateCache_updater_def s1_def)
  have ft3: "find_tab (activeTabId s) (tabs s3)
             = Some (merge_tab t (no_tab_fields\<lparr>p_status := Some st\<rparr>))"
    using ft by (simp add: s3_def s1_def updateActiveTab_def find_tab_updateTab no_tab_fields_def)
  obtain s' t' where r: "reloadContentForUrl hn now ai s (url t) (activeTabId s) s3 = Some s'"
      "find_tab (activeTabId s) (tabs s') = Some t'" "status t' = site_status c"
      "error t' = None" "content t' = Some html" "siteCache s' = siteCache s3"
    using reload_reads_render [OF ft ft3 assms(2,3,4), of hn now ai] by blast
  have a: "activeTabId s' = activeTabId s"
    using r(1) ft assms(2,3,4)
    by (auto simp add: reloadContentForUrl_def Let_def updateTab_frame s3_def s1_def updateActiveTab_def)
  have h: "handleCourtClose hn now ai finalVerdict s s = Some s'"
    using assms(1) u1 r(1) id
    by (simp add: handleCourtClose_def Let_def st_def [symmetric] s3_def [symmetric])
  have c': "siteCache s' (url t) = Some ((merge_site c (no_site_fields\<lparr>p_site_status := Some st\<rparr>))\<lparr>lastVisited := now\<rparr>)"
    by (simp add: r(6) s3_def s1_def updateActiveTab_def updateTab_frame)
  show ?thesis
    using h r(2,3,4,5) a c'
    by (simp add: getActiveTab_find merge_site_def spread_def no_site_fields_def st_def)
qed

text \<open>The page generated from the reply \<^verbatim>\<open><p>\<close>, and a way into the state of C5's input:
  the site is loaded, blocked with the draw \<open>UNDER_APPEAL\<close>, and navigated to again,
  which copies the record's status to the tab.\<close>

lemma page_hi: "generatePageContent (Resolved (Some ''<p>''))
   = ''<div class=\"min-h-[150vh] bg-white text-gray-900 font-sans\"><p></div>''"
  by (simp add: generatePageContent_def cleanResponse_def trim_def is_space_def fence_def)

lemma appeal_state_reachable:
  "map_option (\<lambda>s. (map url (tabs s), map status (tabs s),
                      map_option site_status (siteCache s ''https://a.com/''),
                      map_option site_content (siteCache s ''https://a.com/'') = Some (map content (tabs s) ! 0)))
     (handleNavigate demo_hn 1 (Resolved (Some ''<p>'')) (initial_state ''t1'' Map.empty)
          ''https://a.com/'' None (initial_state ''t1'' Map.empty)
      \<bind> (\<lambda>s. handleBlock demo_hn 2 (Resolved None) True s s)
      \<bind> (\<lambda>s. handleNavigate demo_hn 3 (Resolved None) s ''https://a.com/'' None s))
   = Some ([''https://a.com/''], [UNDER_APPEAL], Some UNDER_APPEAL, True)"
  by (simp add: run_defs page_hi)

text \<open>
  C3, at the failing input. The tab shows a loaded page of a \<open>NORMAL\<close> site and the
  regulator blocks it, the draw being \<open>BLOCKED\<close>. The record becomes \<open>BLOCKED\<close>;
  \<^verbatim>\<open>reloadContentForUrl\<close>, called by the same closure, still reads the record of the
  render, sets the tab's status back to \<open>NORMAL\<close> and shows the cached page: the tab
  ends as it was, with no error.
\<close>

theorem block_shows_cached_page:
  "map_option tabs
     (handleBlock demo_hn 5 (Resolved (Some ''hi'')) False
        (demo_state (demo_site NORMAL (Some ''<p>'') []) (demo_tab NORMAL (Some ''<p>'') []))
        (demo_state (demo_site NORMAL (Some ''<p>'') []) (demo_tab NORMAL (Some ''<p>'') [])))
   = Some [demo_tab NORMAL (Some ''<p>'') []]
   \<and> map_option siteCache
     (handleBlock demo_hn 5 (Resolved (Some ''hi'')) False
        (demo_state (demo_site NORMAL (Some ''<p>'') []) (demo_tab NORMAL (Some ''<p>'') []))
        (demo_state (demo_site NORMAL (Some ''<p>'') []) (demo_tab NORMAL (Some ''<p>'') [])))
   = Some [''https://a.com/'' \<mapsto> (demo_site BLOCKED (Some ''<p>'') [])\<lparr>lastVisited := 5\<rparr>]"
  by (simp add: run_defs)

text \<open>
  C5, at the failing input. The tab and the record of its site are \<open>UNDER_APPEAL\<close> and
  the court is closed with either verdict. The record becomes \<open>BLOCKED\<close> for \<open>UPHOLD\<close>
  and \<open>NORMAL\<close> for \<open>OVERTURN\<close>; the tab ends \<open>UNDER_APPEAL\<close>, showing the cached
  page, for the same reason as in C3.
\<close>

theorem court_close_leaves_tab_under_appeal:
  "map_option tabs
     (handleCourtClose demo_hn 5 (Resolved (Some ''hi'')) UPHOLD
        (demo_state (demo_site UNDER_APPEAL (Some ''<p>'') []) (demo_tab UNDER_APPEAL (Some ''<p>'') []))
        (demo_state (demo_site UNDER_APPEAL (Some ''<p>'') []) (demo_tab UNDER_APPEAL (Some ''<p>'') [])))
   = Some [demo_tab UNDER_APPEAL (Some ''<p>'') []]
   \<and> map_option siteCache
     (handleCourtClose demo_hn 5 (Resolved (Some ''hi'')) UPHOLD
        (demo_state (demo_site UNDER_APPEAL (Some ''<p>'') []) (demo_tab UNDER_APPEAL (Some ''<p>'') []))
        (demo_state (demo_site UNDER_APPEAL (Some ''<p>'') []) (demo_tab UNDER_APPEAL (Some ''<p>'') [])))
   = Some [''https://a.com/'' \<mapsto> (demo_site BLOCKED (Some ''<p>'') [])\<lparr>lastVisited := 5\<rparr>]
   \<and> map_option tabs
     (handleCourtClose demo_hn 5 (Resolved (Some ''hi'')) OVERTURN
        (demo_state (demo_site UNDER_APPEAL (Some ''<p>'') []) (demo_tab UNDER_APPEAL (Some ''<p>'') []))
        (demo_state (demo_site UNDER_APPEAL (Some ''<p>'') []) (demo_tab UNDER_APPEAL (Some ''<p>'') [])))
   = Some [demo_tab UNDER_APPEAL (Some ''<p>'') []]
   \<and> map_option siteCache
     (handleCourtClose demo_hn 5 (Resolved (Some ''hi'')) OVERTURN
        (demo_state (demo_site UNDER_APPEAL (Some ''<p>'') []) (demo_tab UNDER_APPEAL (Some ''<p>'') []))
        (demo_state (demo_site UNDER_APPEAL (Some ''<p>'') []) (demo_tab UNDER_APPEAL (Some ''<p>'') [])))
   = Some [''https://a.com/'' \<mapsto> (demo_site NORMAL (Some ''<p>'') [])\<lparr>lastVisited := 5\<rparr>]"
  by (simp add: run_defs)

subsection \<open>Chat\<close>



text \<open>
  A way into a state in which the tab's transcript is not the record's: a site is loaded,
  one exchange takes place, another site is loaded, and the tab goes back.
  \<^verbatim>\<open>handleNavigate\<close> copies the transcript of a site to the tab, \<^verbatim>\<open>handleBack\<close> does
  not: the tab is on the first site with the (empty) transcript of the second.
\<close>

lemma stale_transcript_reachable:
  "map_option (\<lambda>s. (map url (tabs s), map chatHistory (tabs s),
                      map_option site_chatHistory (siteCache s ''https://a.com/'')))
     (handleNavigate demo_hn 1 (Resolved (Some ''<p>'')) (initial_state ''t1'' Map.empty)
          ''https://a.com/'' None (initial_state ''t1'' Map.empty)
      \<bind> (\<lambda>s. handleChatSendMessage demo_hn 2 3 (Resolved None) s ''first'' ''no'' False s)
      \<bind> (\<lambda>s. handleNavigate demo_hn 4 (Resolved (Some ''<p>'')) s ''https://b.com/'' None s)
      \<bind> (\<lambda>s. handleBack demo_hn 5 (Resolved None) s s))
   = Some ([''https://a.com/''], [[]],
           Some [\<lparr>role = User, msg_text = ''first'', timestamp = 2\<rparr>,
                 \<lparr>role = Model, msg_text = ''no'', timestamp = 3\<rparr>])"
  by (simp add: run_defs page_hi)


subsection \<open>Views of the tab list\<close>

lemma ok_iff: "(ids_ok s \<and> history_ok s) = ok_view (activeTabId s) (hist_view s)"
  by (auto simp add: ids_ok_def history_ok_def ok_view_def hist_view_def comp_def)

lemma hist_view_updateTab:
  "hist_view (updateTab i u s)
   = map (\<lambda>(j, h, k). if j = i then (spread j (p_tab_id u), spread h (p_history u), spread k (p_historyIndex u))
                        else (j, h, k)) (hist_view s)"
  by (simp add: hist_view_def updateTab_def merge_tab_def comp_def)

lemma hist_view_updateTab_same:
  assumes "p_tab_id u = None" "p_history u = None" "p_historyIndex u = None"
  shows "hist_view (updateTab i u s) = hist_view s"
  unfolding hist_view_updateTab using assms by (intro map_idI) (auto simp add: spread_def)

lemma hist_view_frame:
  "hist_view (s\<lparr>isChatOpen := b\<rparr>) = hist_view s"
  "hist_view (s\<lparr>siteCache := c\<rparr>) = hist_view s"
  "hist_view (s\<lparr>genCalls := g\<rparr>) = hist_view s"
  by (simp_all add: hist_view_def)

lemma active_frame: "activeTabId (updateTab i u s) = activeTabId s"
  by (simp add: updateTab_def)

lemma map_of_view:
  "find_tab i (tabs s) = Some t \<Longrightarrow> map_of (hist_view s) i = Some (history t, historyIndex t)"
proof -
  have "find_tab i ts = Some t \<Longrightarrow> map_of (map (\<lambda>t. (tab_id t, history t, historyIndex t)) ts) i
        = Some (history t, historyIndex t)" for ts
    by (induction ts) (auto simp add: find_tab_def split: if_splits)
  then show "find_tab i (tabs s) = Some t \<Longrightarrow> map_of (hist_view s) i = Some (history t, historyIndex t)"
    by (simp add: hist_view_def)
qed

lemma find_tab_some: "i \<in> set (map tab_id ts) \<Longrightarrow> \<exists>t. find_tab i ts = Some t"
  by (induction ts) (auto simp add: find_tab_def)

lemma set_entry_eq:
  assumes "distinct (map fst v)" "map_of v a = Some (h0, k0)"
  shows "map (\<lambda>(j, h, k). if j = a then (j, f h k) else (j, h, k)) v = set_entry a (f h0 k0) v"
proof -
  have "\<And>j h k. (j, h, k) \<in> set v \<Longrightarrow> j = a \<Longrightarrow> (h, k) = (h0, k0)"
    using assms by (metis map_of_is_SomeI option.inject)
  then show ?thesis
    unfolding set_entry_def by (intro map_cong) auto
qed

lemma ok_view_set_entry:
  assumes "ok_view a v" "0 \<le> K" "K < int (length H)"
  shows "ok_view b (set_entry a (H, K) v) = ok_view b v" "ok_view a (set_entry a (H, K) v)"
proof -
  have m: "map fst (set_entry a (H, K) v) = map fst v"
    by (simp add: set_entry_def comp_def case_prod_beta)
  have bounds: "\<forall>(i, h, k) \<in> set (set_entry a (H, K) v). 0 \<le> k \<and> k < int (length h)"
    using assms by (auto simp add: ok_view_def set_entry_def split: if_splits)
  show "ok_view a (set_entry a (H, K) v)"
    using assms(1) bounds by (simp add: ok_view_def m)
  show "ok_view b (set_entry a (H, K) v) = ok_view b v"
    using assms(1) bounds by (simp add: ok_view_def m)
qed

lemma map_of_set_entry:
  "a \<in> set (map fst v) \<Longrightarrow> map_of (set_entry a e v) a = Some e"
  by (induction v) (auto simp add: set_entry_def)

lemma hist_view_updateTab_entry:
  assumes "p_tab_id u = None" "distinct (map fst (hist_view s))" "map_of (hist_view s) a = Some (h0, k0)"
  shows "hist_view (updateTab a u s)
         = set_entry a (spread h0 (p_history u), spread k0 (p_historyIndex u)) (hist_view s)"
proof -
  have "hist_view (updateTab a u s)
        = map (\<lambda>(j, h, k). if j = a then (j, (\<lambda>h k. (spread h (p_history u), spread k (p_historyIndex u))) h k)
                            else (j, h, k)) (hist_view s)"
    unfolding hist_view_updateTab using assms(1) by (intro map_cong) (auto simp add: spread_def)
  also have "\<dots> = set_entry a (spread h0 (p_history u), spread k0 (p_historyIndex u)) (hist_view s)"
    using set_entry_eq [OF assms(2,3), where f = "\<lambda>h k. (spread h (p_history u), spread k (p_historyIndex u))"]
    by simp
  finally show ?thesis .
qed

lemma set_entry_same:
  assumes "distinct (map fst v)" "map_of v a = Some e"
  shows "set_entry a e v = v"
proof -
  have "\<And>j h k. (j, h, k) \<in> set v \<Longrightarrow> j = a \<Longrightarrow> (h, k) = e"
    using assms by (metis map_of_is_SomeI option.inject)
  then show ?thesis unfolding set_entry_def by (intro map_idI) auto
qed

lemma reload_view:
  "\<exists>s'. reloadContentForUrl hn now ai r u i s = Some s' \<and> hist_view s' = hist_view s
        \<and> activeTabId s' = activeTabId s"
proof (cases "find_tab i (tabs r)")
  case None
  then show ?thesis by (simp add: reloadContentForUrl_def)
next
  case (Some tab)
  then show ?thesis
    by (auto simp add: reloadContentForUrl_def Let_def hist_view_updateTab_same no_tab_fields_def
          active_frame call_generatePageContent_def updateCache_def updateCache_updater_def
          hist_view_frame split: option.splits)
qed

lemma slice0_take: "0 \<le> e \<Longrightarrow> slice0 xs e = take (nat e) xs"
  by (simp add: slice0_def Let_def min_def)

lemma navigate_view:
  assumes ft: "find_tab (activeTabId s) (tabs s) = Some t" and nonneg: "0 \<le> historyIndex t"
  shows "\<exists>s'. handleNavigate hn now ai s u None s = Some s' \<and> activeTabId s' = activeTabId s
           \<and> hist_view s' = map (\<lambda>(j, h, k). if j = activeTabId s
                 then (j, take (nat (historyIndex t + 1)) (history t) @ [u], historyIndex t + 1)
                 else (j, h, k)) (hist_view s)"
proof -
  have sl: "slice0 (history t) (historyIndex t + 1) = take (nat (historyIndex t + 1)) (history t)"
    using nonneg by (simp add: slice0_take)
  show ?thesis
    using ft
    by (auto simp add: handleNavigate_def Let_def sl hist_view_updateTab hist_view_updateTab_same
          no_tab_fields_def no_site_fields_def active_frame call_generatePageContent_def
          updateCache_def updateCache_updater_def hist_view_frame spread_def
          split: option.splits prod.splits)
qed

lemma move_position_view:
  assumes ft: "find_tab (activeTabId s) (tabs s) = Some t"
      and d: "distinct (map tab_id (tabs s))"
  shows "hist_view (updateActiveTab s (no_tab_fields\<lparr>p_historyIndex := Some n, p_url := Some v\<rparr>) s)
         = set_entry (activeTabId s) (history t, n) (hist_view s)"
proof -
  have d': "distinct (map fst (hist_view s))"
    using d by (simp add: hist_view_def comp_def)
  show ?thesis
    unfolding updateActiveTab_def
    using hist_view_updateTab_entry [OF _ d' map_of_view [OF ft],
        where u = "no_tab_fields\<lparr>p_historyIndex := Some n, p_url := Some v\<rparr>"]
    by (simp add: no_tab_fields_def spread_def)
qed

lemma after_move_view:
  "\<exists>s'. (if v = about_home then
            Some (updateActiveTab r (no_tab_fields\<lparr>p_content := Some None, p_error := Some None,
                    p_title := Some home_title\<rparr>) s1)
          else reloadContentForUrl hn now ai r v i s1) = Some s'
        \<and> hist_view s' = hist_view s1 \<and> activeTabId s' = activeTabId s1"
  using reload_view [of hn now ai r v i s1]
  by (auto simp add: updateActiveTab_def hist_view_updateTab_same no_tab_fields_def active_frame)

lemma back_view:
  assumes ft: "find_tab (activeTabId s) (tabs s) = Some t"
      and d: "distinct (map tab_id (tabs s))"
      and b: "0 \<le> historyIndex t" "historyIndex t < int (length (history t))"
  shows "\<exists>s'. handleBack hn now ai s s = Some s' \<and> activeTabId s' = activeTabId s
           \<and> hist_view s' = set_entry (activeTabId s)
                 (history t, if 0 < historyIndex t then historyIndex t - 1 else historyIndex t) (hist_view s)"
proof (cases "0 < historyIndex t")
  case False
  have "set_entry (activeTabId s) (history t, historyIndex t) (hist_view s) = hist_view s"
    using d map_of_view [OF ft] by (intro set_entry_same) (simp_all add: hist_view_def comp_def)
  with False ft show ?thesis
    by (simp add: handleBack_def getActiveTab_find)
next
  case True
  define n where "n = historyIndex t - 1"
  obtain v where v: "index (history t) n = Some v"
    using True b by (simp add: index_def n_def)
  define s1 where "s1 = updateActiveTab s (no_tab_fields\<lparr>p_historyIndex := Some n, p_url := Some v\<rparr>) s"
  have v1: "hist_view s1 = set_entry (activeTabId s) (history t, n) (hist_view s)"
    unfolding s1_def by (rule move_position_view [OF ft d])
  have a1: "activeTabId s1 = activeTabId s"
    by (simp add: s1_def updateActiveTab_def active_frame)
  obtain s' where s': "(if v = about_home then
            Some (updateActiveTab s (no_tab_fields\<lparr>p_content := Some None, p_error := Some None,
                    p_title := Some home_title\<rparr>) s1)
          else reloadContentForUrl hn now ai s v (tab_id t) s1) = Some s'"
      "hist_view s' = hist_view s1" "activeTabId s' = activeTabId s1"
    using after_move_view [of v s s1 hn now ai "tab_id t"] by blast
  have "handleBack hn now ai s s = Some s'"
    using True v ft s'(1)
    by (simp add: handleBack_def getActiveTab_find Let_def n_def [symmetric] s1_def [symmetric]
          split: if_splits)
  with s'(2,3) v1 a1 True show ?thesis
    by (simp add: n_def)
qed

lemma forward_view:
  assumes ft: "find_tab (activeTabId s) (tabs s) = Some t"
      and d: "distinct (map tab_id (tabs s))"
      and b: "0 \<le> historyIndex t" "historyIndex t < int (length (history t))"
  shows "\<exists>s'. handleForward hn now ai s s = Some s' \<and> activeTabId s' = activeTabId s
           \<and> hist_view s' = set_entry (activeTabId s)
                 (history t, if historyIndex t < int (length (history t)) - 1 then historyIndex t + 1
                             else historyIndex t) (hist_view s)"
proof (cases "historyIndex t < int (length (history t)) - 1")
  case False
  have "set_entry (activeTabId s) (history t, historyIndex t) (hist_view s) = hist_view s"
    using d map_of_view [OF ft] by (intro set_entry_same) (simp_all add: hist_view_def comp_def)
  with False ft show ?thesis
    by (simp add: handleForward_def getActiveTab_find)
next
  case True
  define n where "n = historyIndex t + 1"
  obtain v where v: "index (history t) n = Some v"
    using True b by (simp add: index_def n_def)
  define s1 where "s1 = updateActiveTab s (no_tab_fields\<lparr>p_historyIndex := Some n, p_url := Some v\<rparr>) s"
  have v1: "hist_view s1 = set_entry (activeTabId s) (history t, n) (hist_view s)"
    unfolding s1_def by (rule move_position_view [OF ft d])
  have a1: "activeTabId s1 = activeTabId s"
    by (simp add: s1_def updateActiveTab_def active_frame)
  obtain s' where s': "(if v = about_home then
            Some (updateActiveTab s (no_tab_fields\<lparr>p_content := Some None, p_error := Some None,
                    p_title := Some home_title\<rparr>) s1)
          else reloadContentForUrl hn now ai s v (tab_id t) s1) = Some s'"
      "hist_view s' = hist_view s1" "activeTabId s' = activeTabId s1"
    using after_move_view [of v s s1 hn now ai "tab_id t"] by blast
  have "handleForward hn now ai s s = Some s'"
    using True v ft s'(1)
    by (simp add: handleForward_def getActiveTab_find Let_def n_def [symmetric] s1_def [symmetric]
          split: if_splits)
  with s'(2,3) v1 a1 True show ?thesis
    by (simp add: n_def)
qed

lemma ids_of_view: "map tab_id (tabs s) = map fst (hist_view s)"
  by (simp add: hist_view_def comp_def)

lemma fst_set_entry: "map fst (set_entry a e v) = map fst v"
  by (simp add: set_entry_def comp_def case_prod_beta)

lemma active_tab_exists: "ids_ok s \<Longrightarrow> \<exists>t. find_tab (activeTabId s) (tabs s) = Some t \<and> t \<in> set (tabs s)"
proof -
  have "find_tab i ts = Some t \<Longrightarrow> t \<in> set ts" for i ts t
    by (induction ts) (auto simp add: find_tab_def split: if_splits)
  then show "ids_ok s \<Longrightarrow> \<exists>t. find_tab (activeTabId s) (tabs s) = Some t \<and> t \<in> set (tabs s)"
    using find_tab_some [of "activeTabId s" "tabs s"] by (auto simp add: ids_ok_def)
qed

lemma nav_ok:
  assumes ok: "ids_ok s" "history_ok s"
      and nav: "is_nav ev"
  shows "\<exists>s'. fire hn (ev, now, ai) s = Some s' \<and> ids_ok s' \<and> history_ok s'
           \<and> map tab_id (tabs s') = map tab_id (tabs s) \<and> activeTabId s' = activeTabId s"
proof -
  obtain t where ft: "find_tab (activeTabId s) (tabs s) = Some t" and tin: "t \<in> set (tabs s)"
    using active_tab_exists [OF ok(1)] by blast
  have b: "0 \<le> historyIndex t" "historyIndex t < int (length (history t))"
    using ok(2) tin by (auto simp add: history_ok_def)
  have d: "distinct (map tab_id (tabs s))"
    using ok(1) by (simp add: ids_ok_def)
  have okv: "ok_view (activeTabId s) (hist_view s)"
    using ok by (simp add: ok_iff [symmetric])
  have step: "\<exists>s'. fire hn (ev, now, ai) s = Some s' \<and> activeTabId s' = activeTabId s
        \<and> (\<exists>H K. 0 \<le> K \<and> K < int (length H) \<and> hist_view s' = set_entry (activeTabId s) (H, K) (hist_view s))"
  proof (cases ev)
    case (Navigate u)
    obtain s' where s': "handleNavigate hn now ai s u None s = Some s'" "activeTabId s' = activeTabId s"
      "hist_view s' = set_entry (activeTabId s)
         (take (nat (historyIndex t + 1)) (history t) @ [u], historyIndex t + 1) (hist_view s)"
      using navigate_view [OF ft b(1), of hn now ai u] unfolding set_entry_def by blast
    have K: "0 \<le> historyIndex t + 1"
      using b by simp
    have L: "historyIndex t + 1 < int (length (take (nat (historyIndex t + 1)) (history t) @ [u]))"
      using b by simp
    have f: "fire hn (ev, now, ai) s = Some s'"
      using Navigate s'(1) by (simp add: fire_def)
    from f s'(2) K L s'(3) show ?thesis by blast
  next
    case Back
    obtain s' where s': "handleBack hn now ai s s = Some s'" "activeTabId s' = activeTabId s"
      "hist_view s' = set_entry (activeTabId s)
         (history t, if 0 < historyIndex t then historyIndex t - 1 else historyIndex t) (hist_view s)"
      using back_view [OF ft d b, of hn now ai] by blast
    have K: "0 \<le> (if 0 < historyIndex t then historyIndex t - 1 else historyIndex t)"
      and L: "(if 0 < historyIndex t then historyIndex t - 1 else historyIndex t) < int (length (history t))"
      using b by auto
    have f: "fire hn (ev, now, ai) s = Some s'"
      using Back s'(1) by (simp add: fire_def)
    from f s'(2) K L s'(3) show ?thesis by blast
  next
    case Forward
    obtain s' where s': "handleForward hn now ai s s = Some s'" "activeTabId s' = activeTabId s"
      "hist_view s' = set_entry (activeTabId s)
         (history t, if historyIndex t < int (length (history t)) - 1 then historyIndex t + 1
                     else historyIndex t) (hist_view s)"
      using forward_view [OF ft d b, of hn now ai] by blast
    have K: "0 \<le> (if historyIndex t < int (length (history t)) - 1 then historyIndex t + 1 else historyIndex t)"
      and L: "(if historyIndex t < int (length (history t)) - 1 then historyIndex t + 1 else historyIndex t)
         < int (length (history t))"
      using b by auto
    have f: "fire hn (ev, now, ai) s = Some s'"
      using Forward s'(1) by (simp add: fire_def)
    from f s'(2) K L s'(3) show ?thesis by blast
  qed (use nav in simp_all)
  then obtain s' H K where s': "fire hn (ev, now, ai) s = Some s'" "activeTabId s' = activeTabId s"
      "0 \<le> K" "K < int (length H)" "hist_view s' = set_entry (activeTabId s) (H, K) (hist_view s)"
    by blast
  have "ok_view (activeTabId s') (hist_view s')"
    using ok_view_set_entry(2) [OF okv s'(3,4)] s'(2,5) by simp
  then have "ids_ok s' \<and> history_ok s'"
    by (simp add: ok_iff)
  moreover have "map tab_id (tabs s') = map tab_id (tabs s)"
    by (simp add: ids_of_view s'(5) fst_set_entry)
  ultimately show ?thesis
    using s'(1,2) by simp
qed

lemma new_tab_ok:
  assumes "ids_ok s" "history_ok s" "i \<notin> set (map tab_id (tabs s))"
  shows "ids_ok (handleNewTab s i s) \<and> history_ok (handleNewTab s i s)"
  using assms by (auto simp add: ids_ok_def history_ok_def handleNewTab_def new_tab_def)

lemma close_tab_remaining:
  assumes "distinct (map tab_id ts)" "length ts \<noteq> 1" "i \<in> set (map tab_id ts)"
  shows "filter (\<lambda>t. tab_id t \<noteq> i) ts \<noteq> []"
proof
  assume "filter (\<lambda>t. tab_id t \<noteq> i) ts = []"
  then have "\<forall>t \<in> set ts. tab_id t = i"
    by (simp add: filter_empty_conv)
  then have "set (map tab_id ts) \<subseteq> {i}" by auto
  then have "card (set (map tab_id ts)) \<le> 1"
    by (metis card_mono card_Suc_eq_finite card.empty finite.emptyI finite.insertI One_nat_def
        card_insert_if empty_iff)
  then have "length ts \<le> 1"
    using assms(1) distinct_card [of "map tab_id ts"] by simp
  with assms(2,3) show False
    by (cases ts) auto
qed

lemma close_tab_ok:
  assumes "ids_ok s" "history_ok s"
  shows "ids_ok (handleCloseTab s i s) \<and> history_ok (handleCloseTab s i s)"
proof (cases "length (tabs s) = 1")
  case True
  with assms show ?thesis by (simp add: handleCloseTab_def)
next
  case False
  define newTabs where "newTabs = filter (\<lambda>t. tab_id t \<noteq> i) (tabs s)"
  have d: "distinct (map tab_id newTabs)"
    using assms(1) by (simp add: ids_ok_def newTabs_def distinct_map_filter)
  have h: "\<forall>t \<in> set newTabs. 0 \<le> historyIndex t \<and> historyIndex t < int (length (history t))"
    using assms(2) by (simp add: history_ok_def newTabs_def)
  show ?thesis
  proof (cases "activeTabId s = i")
    case other: False
    then have "activeTabId s \<in> set (map tab_id newTabs)"
      using assms(1) by (auto simp add: ids_ok_def newTabs_def)
    with False other d h show ?thesis
      by (simp add: handleCloseTab_def Let_def newTabs_def [symmetric] ids_ok_def history_ok_def)
  next
    case closing: True
    then have ne: "newTabs \<noteq> []"
      using close_tab_remaining [of "tabs s" i] assms(1) False by (simp add: ids_ok_def newTabs_def)
    then have "tab_id (last newTabs) \<in> set (map tab_id newTabs)"
      by simp
    with False closing d h ne show ?thesis
      by (cases newTabs)
         (simp_all add: handleCloseTab_def Let_def newTabs_def [symmetric] ids_ok_def history_ok_def)
  qed
qed

lemma nav_new_ids: "\<forall>occ \<in> set occs. is_nav (fst occ) \<Longrightarrow> new_ids occs = []"
proof (induction occs)
  case Nil
  then show ?case by simp
next
  case (Cons occ occs)
  obtain ev now ai where occ: "occ = (ev, now, ai)" by (cases occ) auto
  with Cons show ?case by (cases ev) simp_all
qed

lemma run_ok:
  assumes "ids_ok s" "history_ok s" "distinct (new_ids occs)"
      and "set (map tab_id (tabs s)) \<inter> set (new_ids occs) = {}"
  shows "\<exists>s'. run hn occs s = Some s' \<and> ids_ok s' \<and> history_ok s'"
  using assms
proof (induction occs arbitrary: s)
  case Nil
  then show ?case by simp
next
  case (Cons occ occs)
  obtain ev now ai where occ: "occ = (ev, now, ai)" by (cases occ) auto
  have "\<exists>s1. fire hn occ s = Some s1 \<and> ids_ok s1 \<and> history_ok s1
          \<and> distinct (new_ids occs) \<and> set (map tab_id (tabs s1)) \<inter> set (new_ids occs) = {}"
  proof (cases "is_nav ev")
    case True
    then have n: "new_ids (occ # occs) = new_ids occs"
      using occ by (cases ev) simp_all
    have rest: "distinct (new_ids occs)" "set (map tab_id (tabs s)) \<inter> set (new_ids occs) = {}"
      using Cons.prems(3,4) n by simp_all
    obtain s1 where s1: "fire hn occ s = Some s1" "ids_ok s1" "history_ok s1"
        "map tab_id (tabs s1) = map tab_id (tabs s)"
      using nav_ok [OF Cons.prems(1,2) True, of hn now ai] occ by blast
    from s1 rest show ?thesis
      by (metis (no_types))
  next
    case False
    then consider i where "ev = NewTab i" | i where "ev = CloseTab i"
      by (cases ev) simp_all
    then show ?thesis
    proof cases
      case 1
      then have n: "new_ids (occ # occs) = i # new_ids occs"
        using occ by simp
      have rest: "distinct (new_ids occs)" "i \<notin> set (new_ids occs)"
          "set (map tab_id (tabs s)) \<inter> set (new_ids occs) = {}"
          and fresh: "i \<notin> set (map tab_id (tabs s))"
        using Cons.prems(3,4) n by auto
      have ids: "set (map tab_id (tabs (handleNewTab s i s))) = insert i (set (map tab_id (tabs s)))"
        by (simp add: handleNewTab_def new_tab_def)
      have f: "fire hn occ s = Some (handleNewTab s i s)"
        using occ 1 by (simp add: fire_def)
      have "set (map tab_id (tabs (handleNewTab s i s))) \<inter> set (new_ids occs) = {}"
        unfolding ids using rest(2,3) by auto
      with f new_tab_ok [OF Cons.prems(1,2) fresh] rest(1) show ?thesis
        by blast
    next
      case 2
      then have n: "new_ids (occ # occs) = new_ids occs"
        using occ by simp
      have rest: "distinct (new_ids occs)" "set (map tab_id (tabs s)) \<inter> set (new_ids occs) = {}"
        using Cons.prems(3,4) n by simp_all
      have "tabs (handleCloseTab s i s)
            = (if length (tabs s) = 1 then tabs s else filter (\<lambda>t. tab_id t \<noteq> i) (tabs s))"
        by (simp add: handleCloseTab_def Let_def split: list.splits)
      then have ids: "set (map tab_id (tabs (handleCloseTab s i s))) \<subseteq> set (map tab_id (tabs s))"
        by auto
      have f: "fire hn occ s = Some (handleCloseTab s i s)"
        using occ 2 by (simp add: fire_def)
      have "set (map tab_id (tabs (handleCloseTab s i s))) \<inter> set (new_ids occs) = {}"
        using ids rest(2) by blast
      with f close_tab_ok [OF Cons.prems(1,2), of i] rest(1) show ?thesis
        by blast
    qed
  qed
  then obtain s1 where s1: "fire hn occ s = Some s1" "ids_ok s1" "history_ok s1"
      "distinct (new_ids occs)" "set (map tab_id (tabs s1)) \<inter> set (new_ids occs) = {}"
    by blast
  from Cons.IH [OF s1(2,3,4,5)] s1(1) show ?case
    by simp
qed

lemma initial_ok: "ids_ok (initial_state i c) \<and> history_ok (initial_state i c)"
  by (simp add: ids_ok_def history_ok_def initial_state_def new_tab_def)

lemma active_entry:
  assumes "ids_ok s'" "hist_view s' = set_entry (activeTabId s') (H, K) v"
      and "activeTabId s' \<in> set (map fst v)"
  shows "\<exists>t'. getActiveTab s' = Some t' \<and> history t' = H \<and> historyIndex t' = K"
proof -
  obtain t' where t': "find_tab (activeTabId s') (tabs s') = Some t'"
    using active_tab_exists [OF assms(1)] by blast
  have "map_of (hist_view s') (activeTabId s') = Some (H, K)"
    unfolding assms(2) by (rule map_of_set_entry [OF assms(3)])
  with map_of_view [OF t'] t' show ?thesis
    by (simp add: getActiveTab_find)
qed

subsection \<open>History position and open tabs\<close>

text \<open>
  C6. From a state whose tab ids are unique, whose active tab exists and whose tabs all
  have \<open>0 \<le> historyIndex < length history\<close> (the first state is one), every sequence
  of navigate, back and forward events runs to the end and leaves such a state. In the
  state reached, a further navigation to \<open>u\<close> gives the active tab the history cut after
  the current position and extended by \<open>u\<close>, with the position on the new entry; back
  and forward leave the history as it is and move the position by one when it stays in
  range, and not at all otherwise.
\<close>

theorem history_position_invariant:
  assumes "ids_ok s0" and "history_ok s0" and "\<forall>occ \<in> set occs. is_nav (fst occ)"
  shows "\<exists>s t. run hn occs s0 = Some s \<and> ids_ok s \<and> history_ok s \<and> getActiveTab s = Some t
           \<and> (\<forall>u now ai. \<exists>s' t'. fire hn (Navigate u, now, ai) s = Some s' \<and> history_ok s'
                 \<and> getActiveTab s' = Some t'
                 \<and> history t' = take (nat (historyIndex t + 1)) (history t) @ [u]
                 \<and> historyIndex t' = historyIndex t + 1)
           \<and> (\<forall>now ai. \<exists>s' t'. fire hn (Back, now, ai) s = Some s' \<and> history_ok s'
                 \<and> getActiveTab s' = Some t' \<and> history t' = history t
                 \<and> historyIndex t' = (if 0 < historyIndex t then historyIndex t - 1 else historyIndex t))
           \<and> (\<forall>now ai. \<exists>s' t'. fire hn (Forward, now, ai) s = Some s' \<and> history_ok s'
                 \<and> getActiveTab s' = Some t' \<and> history t' = history t
                 \<and> historyIndex t' = (if historyIndex t < int (length (history t)) - 1
                                       then historyIndex t + 1 else historyIndex t))"
proof -
  obtain s where s: "run hn occs s0 = Some s" "ids_ok s" "history_ok s"
    using run_ok [OF assms(1,2), of occs hn] nav_new_ids [OF assms(3)] by auto
  obtain t where ft: "find_tab (activeTabId s) (tabs s) = Some t" and tin: "t \<in> set (tabs s)"
    using active_tab_exists [OF s(2)] by blast
  have b: "0 \<le> historyIndex t" "historyIndex t < int (length (history t))"
    using s(3) tin by (auto simp add: history_ok_def)
  have d: "distinct (map tab_id (tabs s))" and ain: "activeTabId s \<in> set (map fst (hist_view s))"
    using s(2) by (simp_all add: ids_ok_def ids_of_view)
  have after: "\<exists>s' t'. fire hn (ev, now, ai) s = Some s' \<and> history_ok s'
         \<and> getActiveTab s' = Some t' \<and> history t' = H \<and> historyIndex t' = K"
    if nv: "is_nav ev" and ve: "\<And>s'. fire hn (ev, now, ai) s = Some s' \<Longrightarrow>
          hist_view s' = set_entry (activeTabId s) (H, K) (hist_view s)" for ev now ai H K
  proof -
    obtain s' where s': "fire hn (ev, now, ai) s = Some s'" "ids_ok s'" "history_ok s'"
        "activeTabId s' = activeTabId s"
      using nav_ok [OF s(2,3) nv, of hn now ai] by blast
    from active_entry [OF s'(2), of H K "hist_view s"] ve [OF s'(1)] s'(4) ain s'(1,3)
    show ?thesis by auto
  qed
  have nav: "\<exists>s' t'. fire hn (Navigate u, now, ai) s = Some s' \<and> history_ok s'
                 \<and> getActiveTab s' = Some t'
                 \<and> history t' = take (nat (historyIndex t + 1)) (history t) @ [u]
                 \<and> historyIndex t' = historyIndex t + 1" for u now ai
    using navigate_view [OF ft b(1), of hn now ai u]
    by (intro after) (auto simp add: fire_def set_entry_def)
  have bk: "\<exists>s' t'. fire hn (Back, now, ai) s = Some s' \<and> history_ok s'
                 \<and> getActiveTab s' = Some t' \<and> history t' = history t
                 \<and> historyIndex t' = (if 0 < historyIndex t then historyIndex t - 1 else historyIndex t)"
    for now ai
    using back_view [OF ft d b, of hn now ai]
    by (intro after) (auto simp add: fire_def)
  have fw: "\<exists>s' t'. fire hn (Forward, now, ai) s = Some s' \<and> history_ok s'
                 \<and> getActiveTab s' = Some t' \<and> history t' = history t
                 \<and> historyIndex t' = (if historyIndex t < int (length (history t)) - 1
                                       then historyIndex t + 1 else historyIndex t)" for now ai
    using forward_view [OF ft d b, of hn now ai]
    by (intro after) (auto simp add: fire_def)
  from s ft nav bk fw show ?thesis
    unfolding getActiveTab_find by blast
qed

text \<open>Witness for C6: from the first state, to a site, back, and on to another site: the
  entry of the first site is cut off.\<close>

theorem history_position_invariant_witness:
  "\<exists>s t. run demo_hn [(Navigate ''https://a.com/'', 5, Resolved (Some ''hi'')),
                      (Back, 6, Resolved None),
                      (Navigate ''https://b.com/'', 7, Resolved (Some ''yo''))]
           (initial_state ''t1'' Map.empty) = Some s
         \<and> history_ok s \<and> getActiveTab s = Some t
         \<and> history t = [''about:home'', ''https://b.com/''] \<and> historyIndex t = 1"
  using history_position_invariant [where ?s0.0 = "initial_state ''t1'' Map.empty" and hn = demo_hn
    and occs = "[(Navigate ''https://a.com/'', 5, Resolved (Some ''hi'')), (Back, 6, Resolved None),
                 (Navigate ''https://b.com/'', 7, Resolved (Some ''yo''))]"]
    initial_ok [of "''t1''" Map.empty]
  by (auto simp add: run_defs)

text \<open>
  C10. When the ids that \<^verbatim>\<open>generateId()\<close> draws differ from each other and from the id
  of the first tab, every sequence of new-tab, close-tab, navigate, back and forward
  events from the first state runs to the end and leaves a non-empty tab list in which
  \<^verbatim>\<open>getActiveTab\<close> finds a tab. There \<^verbatim>\<open>handleCloseTab\<close> changes nothing when one tab is
  left; otherwise closing the active tab leaves the other tabs, at least one, and makes
  the last of them active.
\<close>

theorem tabs_never_empty:
  assumes "distinct (i0 # new_ids occs)"
  shows "\<exists>s t. run hn occs (initial_state i0 c0) = Some s \<and> tabs s \<noteq> [] \<and> getActiveTab s = Some t
           \<and> (length (tabs s) = 1 \<longrightarrow> (\<forall>i. handleCloseTab s i s = s))
           \<and> (length (tabs s) \<noteq> 1 \<longrightarrow>
                tabs (handleCloseTab s (activeTabId s) s) = filter (\<lambda>t. tab_id t \<noteq> activeTabId s) (tabs s)
              \<and> tabs (handleCloseTab s (activeTabId s) s) \<noteq> []
              \<and> activeTabId (handleCloseTab s (activeTabId s) s)
                  = tab_id (last (tabs (handleCloseTab s (activeTabId s) s))))"
proof -
  have "set (map tab_id (tabs (initial_state i0 c0))) \<inter> set (new_ids occs) = {}"
    using assms by (simp add: initial_state_def new_tab_def)
  then obtain s where s: "run hn occs (initial_state i0 c0) = Some s" "ids_ok s" "history_ok s"
    using run_ok [of "initial_state i0 c0" occs hn] initial_ok [of i0 c0] assms by auto
  obtain t where ft: "find_tab (activeTabId s) (tabs s) = Some t" and tin: "t \<in> set (tabs s)"
    using active_tab_exists [OF s(2)] by blast
  have ne: "tabs s \<noteq> []"
    using tin by auto
  have one: "length (tabs s) = 1 \<longrightarrow> (\<forall>i. handleCloseTab s i s = s)"
    by (simp add: handleCloseTab_def)
  have more: "tabs (handleCloseTab s (activeTabId s) s) = filter (\<lambda>t. tab_id t \<noteq> activeTabId s) (tabs s)
              \<and> tabs (handleCloseTab s (activeTabId s) s) \<noteq> []
              \<and> activeTabId (handleCloseTab s (activeTabId s) s)
                  = tab_id (last (tabs (handleCloseTab s (activeTabId s) s)))"
    if "length (tabs s) \<noteq> 1"
  proof -
    have "filter (\<lambda>t. tab_id t \<noteq> activeTabId s) (tabs s) \<noteq> []"
      using close_tab_remaining [of "tabs s" "activeTabId s"] s(2) that by (simp add: ids_ok_def)
    with that show ?thesis
      by (cases "filter (\<lambda>t. tab_id t \<noteq> activeTabId s) (tabs s)")
         (simp_all add: handleCloseTab_def Let_def)
  qed
  from s(1) ne ft one more show ?thesis
    unfolding getActiveTab_find by blast
qed

text \<open>Witness for C10: a second tab is opened and closed, then the close button of the
  only tab is pressed.\<close>

theorem tabs_never_empty_witness:
  "\<exists>s t. run demo_hn [(NewTab ''t2'', 5, Resolved None), (CloseTab ''t2'', 6, Resolved None),
                      (CloseTab ''t1'', 7, Resolved None)]
           (initial_state ''t1'' Map.empty) = Some s
         \<and> tabs s = [new_tab ''t1''] \<and> getActiveTab s = Some t \<and> tab_id t = ''t1''"
  using tabs_never_empty [where ?i0.0 = "''t1''" and ?c0.0 = Map.empty and hn = demo_hn
    and occs = "[(NewTab ''t2'', 5, Resolved None), (CloseTab ''t2'', 6, Resolved None),
                 (CloseTab ''t1'', 7, Resolved None)]"]
  by (auto simp add: run_defs)

end
